theory Spec2Isabelle
  imports Main "HOL-Library.AList"
begin

section \<open>Values, configuration and errors\<close>

text \<open>
  The command line of \<^verbatim>\<open>src/ots/cli.py\<close> moves Python values between the JSON
  configuration file, the prompts and the timesheet store. \<open>val\<close> is the part of
  Python's values that can occur there; \<open>truthy\<close> is Python's truth test.
\<close>

datatype val = VNone | VBool bool | VInt int | VStr string

fun truthy :: "val \<Rightarrow> bool" where
  "truthy VNone = False"
| "truthy (VBool b) = b"
| "truthy (VInt i) = (i \<noteq> 0)"
| "truthy (VStr s) = (s \<noteq> [])"

text \<open>A click argument that is not required is \<open>None\<close> when left out; \<open>given\<close> is
  Python's truth test on such an optional string (\<open>None\<close> and the empty string are false).\<close>

definition given :: "string option \<Rightarrow> bool" where
  "given x = (case x of None \<Rightarrow> False | Some s \<Rightarrow> s \<noteq> [])"

text \<open>The configuration is a JSON object, a Python dict: an association list in insertion
  order. \<open>dict_get\<close> is \<^verbatim>\<open>dict.get(key, default)\<close>, \<open>dict_update\<close> is
  \<^verbatim>\<open>dict.update\<close>.\<close>

type_synonym config = "(string \<times> val) list"

definition dict_get :: "config \<Rightarrow> string \<Rightarrow> val \<Rightarrow> val" where
  "dict_get d k dflt = (case map_of d k of None \<Rightarrow> dflt | Some v \<Rightarrow> v)"

definition dict_update :: "config \<Rightarrow> (string \<times> val) list \<Rightarrow> config" where
  "dict_update d kvs = foldl (\<lambda>acc kv. AList.update (fst kv) (snd kv) acc) d kvs"

text \<open>Exceptions are values. The first three are click's; \<open>PyError\<close> names a built-in
  Python exception; the rest is the error taxonomy of the store (spec, section 7).\<close>

datatype error =
    ClickException string
  | UsageError string
  | Abort
  | PyError string
  | FormatError
  | AddressError
  | ValidationError
  | NoHistoryError
  | MigrationRequiredError
  | UnsupportedVersionError
  | AuthError
  | NetworkError
  | LockedError

text \<open>A calendar day is its day number; \<open>date - n\<close> is the day \<open>n\<close> days earlier.\<close>

type_synonym date = int

section \<open>The store as the command line sees it\<close>

text \<open>
  \<^verbatim>\<open>TimesheetFileStore\<close> and \<^verbatim>\<open>check_and_migrate\<close> are imported by
  \<^verbatim>\<open>cli.py\<close> from modules that are not part of the source at hand. The command line
  is modelled over any implementation of them: \<open>store_call\<close> lists the method calls
  \<^verbatim>\<open>cli.py\<close> makes, each with the arguments it passes, in the order of the method's
  keywords at the call site. An optional argument that the caller leaves out is \<open>None\<close>,
  like one passed as \<^verbatim>\<open>None\<close>.
\<close>

datatype store_call =
    AddTimesheet string "string option" date "string option" "int option" "int option"
      \<comment> \<open>task_code, description, date, duration, project_id, task_id\<close>
  | AddAndStartTimesheet "string option" "string option" "int option" "int option" "bool option"
      \<comment> \<open>task_code, description, task_id, project_id, is_worktime\<close>
  | StopRunning
  | EditTimesheet string "string option" "string option" "string option" "int option" "int option"
      \<comment> \<open>index, description, duration, task_code, task_id, project_id\<close>
  | DropTimesheet string
  | Resume "string option"
  | PrintAliases bool
  | AddAlias string "string option" "string option" "int option" "int option"
      \<comment> \<open>name, task_code, description, project_id, task_id\<close>
  | DeleteAlias string
  | UpdateAlias "string option"
  | Push "string option" "date option"
  | OdooSearchTask string
  | PrintDate date
  | OdooPrintProjectPlanning
  | Login val val val bool val "string option"
      \<comment> \<open>username, password, hostname, ssl, port, database (save is always True)\<close>
  | Logout
  | UpdateTimesheetOdooData string

record 'st deps =
  new_store :: "'st"
    \<comment> \<open>\<^verbatim>\<open>TimesheetFileStore()\<close>\<close>
  store_method :: "'st \<Rightarrow> store_call \<Rightarrow> error + (val \<times> 'st)"
    \<comment> \<open>a method call on the store: it raises, or returns a value and the store it leaves\<close>
  check_and_migrate :: "'st \<Rightarrow> val \<Rightarrow> error + 'st"
    \<comment> \<open>\<^verbatim>\<open>check_and_migrate(store, auto_migrate=...)\<close>\<close>

section \<open>The world of one invocation\<close>

text \<open>
  \<open>config_files\<close> maps a configuration directory to the content of its
  \<^verbatim>\<open>config.json\<close>; \<open>filestores\<close> maps the path of a filestore to the committed
  \<^verbatim>\<open>root.timesheet_storage\<close> of that ZODB database (\<open>None\<close>: the root has no such
  attribute yet); \<open>conn\<close> is the store as the open connection sees it inside a
  transaction; \<open>out\<close> collects what the command line itself echoes.
  \<open>trace\<close> is a log of what is done to the database, kept for stating in which order
  things happen; no command reads it.
\<close>

datatype event = TxBegin | Migrate val | Call store_call | TxCommit | TxAbort

record 'st world =
  config_files :: "string \<rightharpoonup> config"
  filestores :: "string \<rightharpoonup> 'st"
  conn :: "'st option"
  out :: "string list"
  trace :: "event list"

text \<open>\<^verbatim>\<open>ctx.obj\<close>: the dict the group callback fills for the sub commands. The code reads
  \<^verbatim>\<open>db\<close> and \<^verbatim>\<open>config\<close> with \<^verbatim>\<open>obj.get\<close>, so they may be missing. A database
  handle is the path of its filestore.\<close>

record obj =
  obj_config_dir :: string
  obj_db :: "string option"
  obj_config :: "config option"

text \<open>What comes from outside the program: the clock, the answers of the user to
  \<^verbatim>\<open>click.prompt(text, default=...)\<close> and \<^verbatim>\<open>click.confirm(text, default=...)\<close>, the
  help text of click, and the library functions \<^verbatim>\<open>date.isoformat\<close>,
  \<^verbatim>\<open>dateutil.parser.parse\<close> and \<^verbatim>\<open>str\<close>.\<close>

record env =
  env_today :: date
  env_prompt :: "string \<Rightarrow> val \<Rightarrow> val"
  env_confirm :: "string \<Rightarrow> val \<Rightarrow> bool"
  env_get_help :: string
  env_isoformat :: "date \<Rightarrow> string"
  env_parse :: "string \<Rightarrow> error + date"
  env_str :: "val \<Rightarrow> string"

text \<open>A command runs in the world and either raises or returns; what it did to the world
  before raising stays done.\<close>

type_synonym ('st, 'a) io = "'st world \<Rightarrow> (error + 'a) \<times> 'st world"

definition succeed :: "'a \<Rightarrow> ('st, 'a) io" where
  "succeed x w = (Inr x, w)"

definition raise :: "error \<Rightarrow> ('st, 'a) io" where
  "raise e w = (Inl e, w)"

definition and_then :: "('st, 'a) io \<Rightarrow> ('a \<Rightarrow> ('st, 'b) io) \<Rightarrow> ('st, 'b) io" where
  "and_then m f w = (case m w of (Inl e, w') \<Rightarrow> (Inl e, w') | (Inr x, w') \<Rightarrow> f x w')"

definition click_echo :: "string \<Rightarrow> ('st, unit) io" where
  "click_echo s w = (Inr (), w\<lparr>out := out w @ [s]\<rparr>)"

definition call :: "'st deps \<Rightarrow> store_call \<Rightarrow> ('st, val) io" where
  "call D c w =
     (case conn w of
        None \<Rightarrow> (Inl (PyError ''AttributeError''), w)
      | Some s \<Rightarrow>
          (let w1 = w\<lparr>trace := trace w @ [Call c]\<rparr> in
           case store_method D s c of
             Inl e \<Rightarrow> (Inl e, w1)
           | Inr (v, s') \<Rightarrow> (Inr v, w1\<lparr>conn := Some s'\<rparr>)))"

section \<open>Configuration file and database access\<close>

text \<open>The model has no directories: \<^verbatim>\<open>ensure_path\<close>, which creates the configuration
  directory when it is missing, has nothing to do here, and a configuration file or a
  filestore is found by its path. The content of \<^verbatim>\<open>config.json\<close> is taken to be a JSON
  object.\<close>

definition OTS_DEFAULT_FILESTORE_FILE_NAME :: string where
  "OTS_DEFAULT_FILESTORE_FILE_NAME = ''filestore.fs''"

definition load_config :: "'st world \<Rightarrow> string \<Rightarrow> config" where
  "load_config w path = (case config_files w path of None \<Rightarrow> [] | Some config \<Rightarrow> config)"

definition save_config :: "config \<Rightarrow> string \<Rightarrow> ('st, unit) io" where
  "save_config config path w =
     click_echo ''Configuration saved'' (w\<lparr>config_files := (config_files w)(path \<mapsto> config)\<rparr>)"

definition get_database :: "obj \<Rightarrow> error + string" where
  "get_database obj =
     (case obj_db obj of
        None \<Rightarrow> Inl (ClickException ''Something went wrong, unable to find database.'')
      | Some db \<Rightarrow> Inr db)"

definition get_config :: "obj \<Rightarrow> config" where
  "get_config obj = (case obj_config obj of None \<Rightarrow> [] | Some config \<Rightarrow> config)"

text \<open>\<^verbatim>\<open>with db.transaction() as connection\<close>, ZODB's context manager: the body works on
  the connection's view of the database; leaving the block normally commits it, leaving
  it by an exception aborts the transaction and passes the exception on.\<close>

definition transaction :: "string \<Rightarrow> ('st, 'a) io \<Rightarrow> ('st, 'a) io" where
  "transaction db body w =
     (case body (w\<lparr>conn := filestores w db, trace := trace w @ [TxBegin]\<rparr>) of
        (Inl e, w') \<Rightarrow> (Inl e, w'\<lparr>conn := None, trace := trace w' @ [TxAbort]\<rparr>)
      | (Inr x, w') \<Rightarrow>
          (Inr x, w'\<lparr>filestores := (filestores w')(db := conn w'), conn := None,
                      trace := trace w' @ [TxCommit]\<rparr>))"

definition migrate_step :: "'st deps \<Rightarrow> val \<Rightarrow> ('st, unit) io" where
  "migrate_step D auto_migrate w =
     (case conn w of
        None \<Rightarrow> (Inl (PyError ''AttributeError''), w)
      | Some timesheet_storage \<Rightarrow>
          (let w1 = w\<lparr>trace := trace w @ [Migrate auto_migrate]\<rparr> in
           case check_and_migrate D timesheet_storage auto_migrate of
             Inl e \<Rightarrow> (Inl e, w1)
           | Inr s' \<Rightarrow> (Inr (), w1\<lparr>conn := Some s'\<rparr>)))"

definition ots_filestore :: "'st deps \<Rightarrow> obj \<Rightarrow> ('st, 'a) io \<Rightarrow> ('st, 'a) io" where
  "ots_filestore D obj body w =
     (case get_database obj of
        Inl e \<Rightarrow> (Inl e, w)
      | Inr db \<Rightarrow>
          (let auto_migrate = dict_get (get_config obj) ''auto_migrate'' (VBool True) in
           transaction db (and_then (migrate_step D auto_migrate) (\<lambda>_. body)) w))"

definition do_setup :: "'st deps \<Rightarrow> string \<Rightarrow> ('st, config \<times> string) io" where
  "do_setup D config_dir w =
     (let config = load_config w config_dir;
          filestore_file_name = dict_get config ''filestore'' (VStr OTS_DEFAULT_FILESTORE_FILE_NAME)
      in case filestore_file_name of
           VStr name \<Rightarrow>
             (let db = config_dir @ ''/'' @ name in
              and_then
                (transaction db
                   (\<lambda>w. case conn w of
                           None \<Rightarrow> (Inr (), w\<lparr>conn := Some (new_store D)\<rparr>)
                         | Some _ \<Rightarrow> (Inr (), w)))
                (\<lambda>_. succeed (config, db)) w)
         | _ \<Rightarrow> (Inl (PyError ''TypeError''), w))"

definition cli :: "'st deps \<Rightarrow> string \<Rightarrow> ('st, obj) io" where
  "cli D config_dir =
     and_then (do_setup D config_dir)
       (\<lambda>(config, db). succeed \<lparr>obj_config_dir = config_dir, obj_db = Some db,
                                 obj_config = Some config\<rparr>)"

section \<open>The commands\<close>

text \<open>Each command of \<^verbatim>\<open>cli.py\<close>, with its arguments in the order of the Python
  function. \<^verbatim>\<open>drop\<close>, \<^verbatim>\<open>alias\<close>, \<^verbatim>\<open>setup\<close> and \<^verbatim>\<open>list\<close> carry a suffix.\<close>

definition add ::
  "'st deps \<Rightarrow> env \<Rightarrow> obj \<Rightarrow> string \<Rightarrow> string option \<Rightarrow> string option \<Rightarrow> int option \<Rightarrow>
   int option \<Rightarrow> date option \<Rightarrow> ('st, unit) io" where
  "add D E obj task_code duration description task_id project_id date =
     (let date' = (case date of None \<Rightarrow> env_today E | Some d \<Rightarrow> d) in
      ots_filestore D obj
        (and_then (call D (AddTimesheet task_code description date' duration project_id task_id))
           (\<lambda>_. succeed ())))"

definition start ::
  "'st deps \<Rightarrow> obj \<Rightarrow> string option \<Rightarrow> string option \<Rightarrow> int option \<Rightarrow> int option \<Rightarrow>
   ('st, unit) io" where
  "start D obj task_code description task_id project_id =
     ots_filestore D obj
       (and_then (call D (AddAndStartTimesheet task_code description task_id project_id None))
          (\<lambda>_. succeed ()))"

definition stop :: "'st deps \<Rightarrow> obj \<Rightarrow> ('st, unit) io" where
  "stop D obj = ots_filestore D obj (and_then (call D StopRunning) (\<lambda>_. succeed ()))"

definition edit ::
  "'st deps \<Rightarrow> obj \<Rightarrow> string \<Rightarrow> string option \<Rightarrow> string option \<Rightarrow> string option \<Rightarrow>
   int option \<Rightarrow> int option \<Rightarrow> ('st, unit) io" where
  "edit D obj index description duration code task_id project_id =
     ots_filestore D obj
       (and_then (call D (EditTimesheet index description duration code task_id project_id))
          (\<lambda>timesheet_edited.
             if truthy timesheet_edited then click_echo ''Timesheet updated.''
             else click_echo ''Nothing to update.''))"

text \<open>The body of \<^verbatim>\<open>transfer\<close> is \<^verbatim>\<open>pass\<close> under comments.\<close>

definition transfer :: "'st deps \<Rightarrow> obj \<Rightarrow> string \<Rightarrow> string \<Rightarrow> string \<Rightarrow> ('st, unit) io" where
  "transfer D obj duration index_from index_to = ots_filestore D obj (succeed ())"

definition drop_cmd :: "'st deps \<Rightarrow> env \<Rightarrow> obj \<Rightarrow> string \<Rightarrow> bool \<Rightarrow> ('st, unit) io" where
  "drop_cmd D E obj index force =
     (if \<not> force \<and> \<not> env_confirm E ''Confirm dropping timesheet'' (VBool False)
      then click_echo ''Timesheet drop aborted.''
      else ots_filestore D obj (and_then (call D (DropTimesheet index)) (\<lambda>_. succeed ())))"

definition lunch :: "'st deps \<Rightarrow> obj \<Rightarrow> ('st, unit) io" where
  "lunch D obj =
     ots_filestore D obj
       (and_then (call D (AddAndStartTimesheet None (Some ''Lunch'') None None (Some False)))
          (\<lambda>_. succeed ()))"

definition resume :: "'st deps \<Rightarrow> obj \<Rightarrow> string option \<Rightarrow> ('st, unit) io" where
  "resume D obj index = ots_filestore D obj (and_then (call D (Resume index)) (\<lambda>_. succeed ()))"

definition alias_list :: "'st deps \<Rightarrow> obj \<Rightarrow> bool \<Rightarrow> ('st, unit) io" where
  "alias_list D obj details =
     ots_filestore D obj (and_then (call D (PrintAliases details)) (\<lambda>_. succeed ()))"

text \<open>The group callback of \<^verbatim>\<open>ots alias\<close>: without a sub command it invokes
  \<^verbatim>\<open>alias list\<close> with that command's defaults.\<close>

definition alias_grp :: "'st deps \<Rightarrow> obj \<Rightarrow> string option \<Rightarrow> ('st, unit) io" where
  "alias_grp D obj invoked_subcommand =
     (if invoked_subcommand = None then alias_list D obj False else succeed ())"

definition alias_add ::
  "'st deps \<Rightarrow> obj \<Rightarrow> string \<Rightarrow> string option \<Rightarrow> string option \<Rightarrow> int option \<Rightarrow> int option \<Rightarrow>
   ('st, unit) io" where
  "alias_add D obj name task_code description project_id task_id =
     ots_filestore D obj
       (and_then (call D (AddAlias name task_code description project_id task_id))
          (\<lambda>_. succeed ()))"

definition alias_delete :: "'st deps \<Rightarrow> obj \<Rightarrow> string \<Rightarrow> ('st, unit) io" where
  "alias_delete D obj name =
     ots_filestore D obj (and_then (call D (DeleteAlias name)) (\<lambda>_. succeed ()))"

definition alias_update_usage :: string where
  "alias_update_usage =
     ''If '' @ [CHR 0x27] @ ''all'' @ [CHR 0x27] @ '' flag is given, name should be omitted.''"

definition alias_update :: "'st deps \<Rightarrow> env \<Rightarrow> obj \<Rightarrow> string option \<Rightarrow> bool \<Rightarrow> ('st, unit) io" where
  "alias_update D E obj name update_all =
     (if \<not> given name \<and> \<not> update_all then click_echo (env_get_help E)
      else if given name \<and> update_all then raise (UsageError alias_update_usage)
      else ots_filestore D obj (and_then (call D (UpdateAlias name)) (\<lambda>_. succeed ())))"

text \<open>In \<^verbatim>\<open>push\<close> the statement under \<^verbatim>\<open>if index:\<close> is the expression
  \<^verbatim>\<open>click.UsageError("...")\<close>: it builds the exception and drops it, there is no
  \<^verbatim>\<open>raise\<close>. So the two branches of that test do the same, and \<open>date\<close> is \<open>dt\<close>.
  \<open>to_be_pushed\<close> is \<^verbatim>\<open>index or date and date.isoformat() or today().isoformat()\<close>.\<close>

definition push_usage :: string where
  "push_usage =
     ''Give an index or a date, not both. If you want to push a single timesheet, '' @
     ''use an index. If you want to push an entire date, use a date instead.''"

definition to_be_pushed :: "env \<Rightarrow> string option \<Rightarrow> date option \<Rightarrow> string" where
  "to_be_pushed E index date =
     (if given index then the index
      else (case date of
              Some d \<Rightarrow> if env_isoformat E d \<noteq> [] then env_isoformat E d
                        else env_isoformat E (env_today E)
            | None \<Rightarrow> env_isoformat E (env_today E)))"

definition push ::
  "'st deps \<Rightarrow> env \<Rightarrow> obj \<Rightarrow> string option \<Rightarrow> date option \<Rightarrow> bool \<Rightarrow> ('st, unit) io" where
  "push D E obj index dt force =
     (let date = (case dt of
                    None \<Rightarrow> None
                  | Some d \<Rightarrow> (if given index then (let dropped = UsageError push_usage in Some d)
                               else Some d))
      in if \<not> force \<and> \<not> env_confirm E (''Push '' @ to_be_pushed E index date @ ''?'') (VBool False)
         then raise Abort
         else ots_filestore D obj (and_then (call D (Push index date)) (\<lambda>_. succeed ())))"

definition search :: "'st deps \<Rightarrow> obj \<Rightarrow> string \<Rightarrow> ('st, unit) io" where
  "search D obj search_term =
     ots_filestore D obj (and_then (call D (OdooSearchTask search_term)) (\<lambda>_. succeed ()))"

text \<open>The loop of \<^verbatim>\<open>list\<close> over \<^verbatim>\<open>reversed(range(0, days))\<close>.\<close>

fun print_dates :: "'st deps \<Rightarrow> date \<Rightarrow> int list \<Rightarrow> ('st, unit) io" where
  "print_dates D date_obj [] = succeed ()"
| "print_dates D date_obj (days # rest) =
     and_then (call D (PrintDate (date_obj - days))) (\<lambda>_. print_dates D date_obj rest)"

definition list_timesheets ::
  "'st deps \<Rightarrow> env \<Rightarrow> obj \<Rightarrow> int \<Rightarrow> string option \<Rightarrow> ('st, unit) io" where
  "list_timesheets D E obj days date =
     and_then
       (if given date then (\<lambda>w. (env_parse E (the date), w)) else succeed (env_today E))
       (\<lambda>date_obj.
          ots_filestore D obj (print_dates D date_obj (rev (map int [0..<nat days]))))"

definition planning :: "'st deps \<Rightarrow> obj \<Rightarrow> ('st, unit) io" where
  "planning D obj =
     ots_filestore D obj (and_then (call D OdooPrintProjectPlanning) (\<lambda>_. succeed ()))"

definition hostname_prompt :: string where
  "hostname_prompt =
     ''Odoo'' @ [CHR 0x27] @ ''s hostname e.g. '' @ [CHR 0x27] @ ''mycompany.odoo.com'' @ [CHR 0x27]"

text \<open>\<^verbatim>\<open>config.update\<close> in \<^verbatim>\<open>login\<close> changes the dict that \<^verbatim>\<open>obj\<close> holds, when it
  holds one; \<^verbatim>\<open>obj.get('config', {})\<close> is a fresh dict otherwise.\<close>

definition login :: "'st deps \<Rightarrow> env \<Rightarrow> obj \<Rightarrow> string option \<Rightarrow> ('st, unit) io" where
  "login D E obj database =
     (let config = get_config obj;
          default_hostname = dict_get config ''odoo_hostname'' VNone;
          default_username = dict_get config ''odoo_login'' VNone;
          default_ssl = dict_get config ''ssl'' (VBool True);
          hostname = env_prompt E hostname_prompt default_hostname;
          username = env_prompt E ''Username'' default_username;
          ssl = env_confirm E ''SSL?'' default_ssl;
          default_port = (if ssl then VStr ''443'' else VStr ''80'');
          port = env_prompt E ''Port'' default_port;
          password = env_prompt E ''Password'' VNone;
          config' = dict_update config
            [(''odoo_hostname'', hostname), (''odoo_login'', username), (''ssl'', VBool ssl),
             (''odoo_port'', port),
             (''odoo_db'', case database of None \<Rightarrow> VNone | Some d \<Rightarrow> VStr d)];
          obj' = obj\<lparr>obj_config := map_option (\<lambda>_. config') (obj_config obj)\<rparr>
      in and_then (save_config config' (obj_config_dir obj))
           (\<lambda>_. ots_filestore D obj'
                  (and_then (call D (Login username password hostname ssl port database))
                     (\<lambda>user_id.
                        click_echo (''Successfully logged in as uid '' @ env_str E user_id @ ''.'')))))"

definition logout :: "'st deps \<Rightarrow> obj \<Rightarrow> ('st, unit) io" where
  "logout D obj =
     ots_filestore D obj (and_then (call D Logout) (\<lambda>_. click_echo ''Session removed.''))"

definition endswith :: "string \<Rightarrow> string \<Rightarrow> bool" where
  "endswith s suf = (length suf \<le> length s \<and> List.drop (length s - length suf) s = suf)"

definition auto_migrate_prompt :: string where
  "auto_migrate_prompt =
     ''Automatically migrate filestore to new version when OTS version is upgraded?''"

definition filestore_prompt :: string where
  "filestore_prompt =
     ''Name of the local filestore file that stores the Timesheets. '' @
     ''This can be used to have several separate local databases of timesheets.''"

definition setup_cmd :: "env \<Rightarrow> obj \<Rightarrow> bool \<Rightarrow> ('st, unit) io" where
  "setup_cmd E obj advanced =
     (let config = get_config obj;
          default_filestore = dict_get config ''filestore'' (VStr OTS_DEFAULT_FILESTORE_FILE_NAME);
          default_auto_migrate = dict_get config ''auto_migrate'' (VBool True);
          auto_migrate = env_prompt E auto_migrate_prompt default_auto_migrate;
          config_values = [(''auto_migrate'', auto_migrate)]
      in if advanced then
           (case env_prompt E filestore_prompt default_filestore of
              VStr filestore \<Rightarrow>
                (let filestore' = (if \<not> endswith filestore ''.fs'' then filestore @ ''.fs''
                                   else filestore)
                 in save_config
                      (dict_update config (config_values @ [(''filestore'', VStr filestore')]))
                      (obj_config_dir obj))
            | _ \<Rightarrow> raise (PyError ''AttributeError''))
         else save_config (dict_update config config_values) (obj_config_dir obj))"

definition update :: "'st deps \<Rightarrow> obj \<Rightarrow> string \<Rightarrow> ('st, unit) io" where
  "update D obj index =
     ots_filestore D obj (and_then (call D (UpdateTimesheetOdooData index)) (\<lambda>_. succeed ()))"

subsection \<open>One invocation of the program\<close>

datatype command =
    Add string "string option" "string option" "int option" "int option" "date option"
  | Start "string option" "string option" "int option" "int option"
  | Stop
  | Edit string "string option" "string option" "string option" "int option" "int option"
  | Transfer string string string
  | Drop string bool
  | Lunch
  | ResumeCmd "string option"
  | Alias
  | AliasList bool
  | AliasAdd string "string option" "string option" "int option" "int option"
  | AliasDelete string
  | AliasUpdate "string option" bool
  | PushCmd "string option" "date option" bool
  | Search string
  | ListCmd int "string option"
  | Planning
  | LoginCmd "string option"
  | LogoutCmd
  | Setup bool
  | Update string

text \<open>click runs the callback of the \<^verbatim>\<open>alias\<close> group before a sub command of it.\<close>

fun invoke :: "'st deps \<Rightarrow> env \<Rightarrow> obj \<Rightarrow> command \<Rightarrow> ('st, unit) io" where
  "invoke D E obj (Add task_code duration description task_id project_id date) =
     add D E obj task_code duration description task_id project_id date"
| "invoke D E obj (Start task_code description task_id project_id) =
     start D obj task_code description task_id project_id"
| "invoke D E obj Stop = stop D obj"
| "invoke D E obj (Edit index description duration code task_id project_id) =
     edit D obj index description duration code task_id project_id"
| "invoke D E obj (Transfer duration index_from index_to) =
     transfer D obj duration index_from index_to"
| "invoke D E obj (Drop index force) = drop_cmd D E obj index force"
| "invoke D E obj Lunch = lunch D obj"
| "invoke D E obj (ResumeCmd index) = resume D obj index"
| "invoke D E obj Alias = alias_grp D obj None"
| "invoke D E obj (AliasList details) =
     and_then (alias_grp D obj (Some ''list'')) (\<lambda>_. alias_list D obj details)"
| "invoke D E obj (AliasAdd name task_code description project_id task_id) =
     and_then (alias_grp D obj (Some ''add''))
       (\<lambda>_. alias_add D obj name task_code description project_id task_id)"
| "invoke D E obj (AliasDelete name) =
     and_then (alias_grp D obj (Some ''delete'')) (\<lambda>_. alias_delete D obj name)"
| "invoke D E obj (AliasUpdate name update_all) =
     and_then (alias_grp D obj (Some ''update'')) (\<lambda>_. alias_update D E obj name update_all)"
| "invoke D E obj (PushCmd index dt force) = push D E obj index dt force"
| "invoke D E obj (Search search_term) = search D obj search_term"
| "invoke D E obj (ListCmd days date) = list_timesheets D E obj days date"
| "invoke D E obj Planning = planning D obj"
| "invoke D E obj (LoginCmd database) = login D E obj database"
| "invoke D E obj LogoutCmd = logout D obj"
| "invoke D E obj (Setup advanced) = setup_cmd E obj advanced"
| "invoke D E obj (Update index) = update D obj index"

definition ots :: "'st deps \<Rightarrow> env \<Rightarrow> string \<Rightarrow> command \<Rightarrow> ('st, unit) io" where
  "ots D E config_dir c = and_then (cli D config_dir) (\<lambda>obj. invoke D E obj c)"

section \<open>The store of the specification\<close>

text \<open>
  Modelled from the spec: the class \<^verbatim>\<open>TimesheetFileStore\<close> (module
  \<^verbatim>\<open>timesheet_filestore\<close>) is not part of the source at hand. The definitions of this
  section follow sections 3 and 4 of the specification. Where the specification leaves a
  choice, the one taken is said in place.
\<close>

subsection \<open>Data model (spec, section 3)\<close>

text \<open>An entry. Its date and position are where it is kept: the key of its day log and
  its index there. Durations and timestamps count minutes.\<close>

record entry =
  task_code :: "string option"
  task_id :: "int option"
  project_id :: "int option"
  description :: "string option"
  duration :: nat
  is_worktime :: bool
  running :: bool
  start_time :: "nat option"
  remote_ref :: "string option"

record alias_rec =
  alias_task_code :: "string option"
  alias_task_id :: "int option"
  alias_project_id :: "int option"
  alias_description :: "string option"

text \<open>A day log lists the entries of a date by position. A dropped entry leaves a
  tombstone (\<open>None\<close>), the policy the specification recommends, so the positions of the
  other entries stay. Day logs are kept by date in an association list, created on the
  first entry of a date and never deleted.\<close>

type_synonym ref = "date \<times> nat"

record store =
  day_logs :: "(date \<times> entry option list) list"
  aliases :: "(string \<times> alias_rec) list"
  running_entry :: "ref option"
  previous_running :: "ref list"
  schema_version :: nat

text \<open>The specification asks for a bounded stack of previously running entries, of depth
  at least 1.\<close>

definition previous_depth :: nat where
  "previous_depth = 2"

definition day_log :: "store \<Rightarrow> date \<Rightarrow> entry option list" where
  "day_log s d = (case map_of (day_logs s) d of None \<Rightarrow> [] | Some l \<Rightarrow> l)"

definition entry_at :: "store \<Rightarrow> ref \<Rightarrow> entry option" where
  "entry_at s r =
     (case map_of (day_logs s) (fst r) of
        None \<Rightarrow> None
      | Some l \<Rightarrow> if snd r < length l then l ! snd r else None)"

definition put_entry :: "store \<Rightarrow> ref \<Rightarrow> entry option \<Rightarrow> store" where
  "put_entry s r x =
     (case map_of (day_logs s) (fst r) of
        None \<Rightarrow> s
      | Some l \<Rightarrow> s\<lparr>day_logs := AList.update (fst r) (l[snd r := x]) (day_logs s)\<rparr>)"

definition append_entry :: "store \<Rightarrow> date \<Rightarrow> entry \<Rightarrow> store" where
  "append_entry s d e = s\<lparr>day_logs := AList.update d (day_log s d @ [Some e]) (day_logs s)\<rparr>"

definition is_running :: "entry option \<Rightarrow> bool" where
  "is_running x = (case x of None \<Rightarrow> False | Some e \<Rightarrow> running e)"

text \<open>The number of entries of the whole store with \<open>running = true\<close>.\<close>

definition running_count :: "store \<Rightarrow> nat" where
  "running_count s = sum_list (map (\<lambda>dl. length (filter is_running (snd dl))) (day_logs s))"

subsection \<open>Duration codec (spec, section 4.1)\<close>

definition is_digit :: "char \<Rightarrow> bool" where
  "is_digit c = ((48::nat) \<le> of_char c \<and> (of_char c :: nat) \<le> 57)"

definition parse_nat :: "string \<Rightarrow> nat option" where
  "parse_nat t =
     (if t \<noteq> [] \<and> list_all is_digit t
      then Some (foldl (\<lambda>n c. 10 * n + ((of_char c :: nat) - 48)) 0 t)
      else None)"

text \<open>\<^verbatim>\<open>HH:mm\<close>: hours and minutes in digits around one colon, minutes below 60.\<close>

definition parse :: "string \<Rightarrow> nat option" where
  "parse t =
     (case (parse_nat (takeWhile (\<lambda>c. c \<noteq> CHR '':'') t),
            dropWhile (\<lambda>c. c \<noteq> CHR '':'') t) of
        (Some h, c # m) \<Rightarrow>
          (case parse_nat m of
             Some mi \<Rightarrow> if mi < 60 then Some (60 * h + mi) else None
           | None \<Rightarrow> None)
      | _ \<Rightarrow> None)"

datatype delta = Replace nat | Increase nat | Decrease nat

definition parse_delta :: "string \<Rightarrow> delta option" where
  "parse_delta t =
     (case t of
        [] \<Rightarrow> None
      | c # rest \<Rightarrow>
          if c = CHR ''+'' then map_option Increase (parse rest)
          else if c = CHR ''-'' then map_option Decrease (parse rest)
          else map_option Replace (parse t))"

text \<open>A signed delta adjusts the value, clamped at 0; no sign replaces it.\<close>

fun apply_delta :: "delta \<Rightarrow> nat \<Rightarrow> nat" where
  "apply_delta (Replace d) old = d"
| "apply_delta (Increase d) old = old + d"
| "apply_delta (Decrease d) old = old - d"

subsection \<open>Address resolver (spec, section 4.2)\<close>

text \<open>\<open>N\<close> is position \<open>N\<close> of today, \<open>D.N\<close> position \<open>N\<close> of the day \<open>D\<close> days ago. It
  fails when the token is malformed, the day has no log, or the position holds no entry
  (out of range, or a tombstone).\<close>

definition parse_index :: "date \<Rightarrow> string \<Rightarrow> ref option" where
  "parse_index today index =
     (case dropWhile (\<lambda>c. c \<noteq> CHR ''.'') index of
        [] \<Rightarrow> map_option (\<lambda>n. (today, n)) (parse_nat index)
      | c # rest \<Rightarrow>
          (case (parse_nat (takeWhile (\<lambda>c. c \<noteq> CHR ''.'') index), parse_nat rest) of
             (Some d, Some n) \<Rightarrow> Some (today - int d, n)
           | _ \<Rightarrow> None))"

definition resolve :: "store \<Rightarrow> date \<Rightarrow> string \<Rightarrow> error + ref" where
  "resolve s today index =
     (case parse_index today index of
        None \<Rightarrow> Inl AddressError
      | Some r \<Rightarrow> (case entry_at s r of None \<Rightarrow> Inl AddressError | Some e \<Rightarrow> Inr r))"

subsection \<open>Running-timer state machine (spec, section 4.3)\<close>

text \<open>Closing an entry adds the time since it was started to what it had accrued.\<close>

definition stopped :: "nat \<Rightarrow> entry \<Rightarrow> entry" where
  "stopped now e =
     e\<lparr>duration := duration e + (now - (case start_time e of None \<Rightarrow> now | Some t \<Rightarrow> t)),
       running := False, start_time := None\<rparr>"

definition stop_current :: "nat \<Rightarrow> store \<Rightarrow> store" where
  "stop_current now s =
     (case running_entry s of
        None \<Rightarrow> s
      | Some r \<Rightarrow>
          (let s1 = (case entry_at s r of
                       None \<Rightarrow> s
                     | Some e \<Rightarrow> put_entry s r (Some (stopped now e)))
           in s1\<lparr>running_entry := None,
                 previous_running := take previous_depth (r # previous_running s1)\<rparr>))"

text \<open>A new entry from what the caller gives. A task code that names an alias takes the
  alias as a template: its values are the defaults of what the caller left out.\<close>

definition make_entry ::
  "store \<Rightarrow> string option \<Rightarrow> string option \<Rightarrow> int option \<Rightarrow> int option \<Rightarrow> bool \<Rightarrow> entry" where
  "make_entry s code descr tid pid worktime =
     (case (case code of None \<Rightarrow> None | Some c \<Rightarrow> map_of (aliases s) c) of
        None \<Rightarrow>
          \<lparr>task_code = code, task_id = tid, project_id = pid, description = descr,
           duration = 0, is_worktime = worktime, running = False, start_time = None,
           remote_ref = None\<rparr>
      | Some a \<Rightarrow>
          \<lparr>task_code = alias_task_code a,
           task_id = (case tid of None \<Rightarrow> alias_task_id a | Some x \<Rightarrow> Some x),
           project_id = (case pid of None \<Rightarrow> alias_project_id a | Some x \<Rightarrow> Some x),
           description = (case descr of None \<Rightarrow> alias_description a | Some x \<Rightarrow> Some x),
           duration = 0, is_worktime = worktime, running = False, start_time = None,
           remote_ref = None\<rparr>)"

definition add_and_start_timesheet ::
  "date \<Rightarrow> nat \<Rightarrow> store \<Rightarrow> string option \<Rightarrow> string option \<Rightarrow> int option \<Rightarrow> int option \<Rightarrow>
   bool option \<Rightarrow> store" where
  "add_and_start_timesheet today now s code descr tid pid worktime =
     (let s1 = stop_current now s;
          e = (make_entry s1 code descr tid pid (case worktime of None \<Rightarrow> True | Some b \<Rightarrow> b))
                \<lparr>running := True, start_time := Some now\<rparr>
      in (append_entry s1 today e)\<lparr>running_entry := Some (today, length (day_log s1 today))\<rparr>)"

definition stop_running :: "nat \<Rightarrow> store \<Rightarrow> store" where
  "stop_running now s = stop_current now s"

definition reopen :: "nat \<Rightarrow> ref \<Rightarrow> store \<Rightarrow> error + store" where
  "reopen now r s =
     (case entry_at s r of
        None \<Rightarrow> Inl AddressError
      | Some e \<Rightarrow>
          Inr ((put_entry s r (Some (e\<lparr>running := True, start_time := Some now\<rparr>)))
                 \<lparr>running_entry := Some r\<rparr>))"

definition resume_timesheet :: "date \<Rightarrow> nat \<Rightarrow> store \<Rightarrow> string option \<Rightarrow> error + store" where
  "resume_timesheet today now s index =
     (case index of
        Some i \<Rightarrow>
          (case resolve s today i of
             Inl e \<Rightarrow> Inl e
           | Inr r \<Rightarrow> reopen now r (stop_current now s))
      | None \<Rightarrow>
          (case previous_running s of
             [] \<Rightarrow> Inl NoHistoryError
           | r # rest \<Rightarrow> reopen now r (stop_current now (s\<lparr>previous_running := rest\<rparr>))))"

definition add_timesheet ::
  "store \<Rightarrow> string \<Rightarrow> string option \<Rightarrow> date \<Rightarrow> string option \<Rightarrow> int option \<Rightarrow> int option \<Rightarrow>
   error + store" where
  "add_timesheet s code descr d dur pid tid =
     (case (case dur of None \<Rightarrow> Some 0 | Some t \<Rightarrow> parse t) of
        None \<Rightarrow> Inl FormatError
      | Some minutes \<Rightarrow>
          Inr (append_entry s d
                 ((make_entry s (if code = [] then None else Some code) descr tid pid True)
                    \<lparr>duration := minutes\<rparr>)))"

subsection \<open>Edit and drop (spec, section 4.4)\<close>

text \<open>Only the fields given are applied; the result says whether any field changed.\<close>

definition edited ::
  "entry \<Rightarrow> string option \<Rightarrow> nat \<Rightarrow> string option \<Rightarrow> int option \<Rightarrow> int option \<Rightarrow> entry" where
  "edited e descr minutes code tid pid =
     e\<lparr>task_code := (case code of None \<Rightarrow> task_code e | Some x \<Rightarrow> Some x),
       task_id := (case tid of None \<Rightarrow> task_id e | Some x \<Rightarrow> Some x),
       project_id := (case pid of None \<Rightarrow> project_id e | Some x \<Rightarrow> Some x),
       description := (case descr of None \<Rightarrow> description e | Some x \<Rightarrow> Some x),
       duration := minutes\<rparr>"

definition edit_timesheet ::
  "date \<Rightarrow> store \<Rightarrow> string \<Rightarrow> string option \<Rightarrow> string option \<Rightarrow> string option \<Rightarrow> int option \<Rightarrow>
   int option \<Rightarrow> error + (bool \<times> store)" where
  "edit_timesheet today s index descr dur code tid pid =
     (case resolve s today index of
        Inl e \<Rightarrow> Inl e
      | Inr r \<Rightarrow>
          (case entry_at s r of
             None \<Rightarrow> Inl AddressError
           | Some e \<Rightarrow>
               (case (case dur of
                        None \<Rightarrow> Some (duration e)
                      | Some t \<Rightarrow> map_option (\<lambda>dl. apply_delta dl (duration e)) (parse_delta t)) of
                  None \<Rightarrow> Inl FormatError
                | Some minutes \<Rightarrow>
                    Inr (edited e descr minutes code tid pid \<noteq> e,
                         put_entry s r (Some (edited e descr minutes code tid pid))))))"

definition drop_timesheet :: "date \<Rightarrow> store \<Rightarrow> string \<Rightarrow> error + store" where
  "drop_timesheet today s index =
     (case resolve s today index of
        Inl e \<Rightarrow> Inl e
      | Inr r \<Rightarrow> Inr (put_entry s r None))"

subsection \<open>Alias table (spec, section 4.5)\<close>

definition add_alias ::
  "store \<Rightarrow> string \<Rightarrow> string option \<Rightarrow> string option \<Rightarrow> int option \<Rightarrow> int option \<Rightarrow> error + store" where
  "add_alias s name code descr pid tid =
     (if code = None \<and> pid = None \<and> tid = None then Inl ValidationError
      else Inr (s\<lparr>aliases := AList.update name
                    \<lparr>alias_task_code = code, alias_task_id = tid, alias_project_id = pid,
                     alias_description = descr\<rparr> (aliases s)\<rparr>))"

definition delete_alias :: "store \<Rightarrow> string \<Rightarrow> store" where
  "delete_alias s name = s\<lparr>aliases := AList.delete name (aliases s)\<rparr>"

subsection \<open>Schema migrator (spec, section 4.7)\<close>

text \<open>
  Modelled from the spec: \<^verbatim>\<open>check_and_migrate\<close> (module \<^verbatim>\<open>migration.migrate\<close>) is
  not part of the source at hand. \<open>expected\<close> is the version the code expects and
  \<open>upgrader v\<close> the upgrader from version \<open>v\<close> to the next; the chain runs them in order
  from the version of the store.
\<close>

fun upgrade_chain :: "(nat \<Rightarrow> store \<Rightarrow> store) \<Rightarrow> nat \<Rightarrow> nat \<Rightarrow> store \<Rightarrow> store" where
  "upgrade_chain upgrader v 0 s = s"
| "upgrade_chain upgrader v (Suc k) s =
     upgrade_chain upgrader (Suc v) k ((upgrader v s)\<lparr>schema_version := Suc v\<rparr>)"

definition spec_check_and_migrate ::
  "nat \<Rightarrow> (nat \<Rightarrow> store \<Rightarrow> store) \<Rightarrow> store \<Rightarrow> val \<Rightarrow> error + store" where
  "spec_check_and_migrate expected upgrader s auto_migrate =
     (if schema_version s = expected then Inr s
      else if schema_version s < expected then
        (if truthy auto_migrate
         then Inr (upgrade_chain upgrader (schema_version s) (expected - schema_version s) s)
         else Inl MigrationRequiredError)
      else Inl UnsupportedVersionError)"

subsection \<open>The specified store behind the command line\<close>

text \<open>
  The method calls of the command line on the specified store, at date \<open>today\<close> and
  clock reading \<open>now\<close>. The calls that render leave the store as it is. The remote
  backend is outside the model: the store has no session, so the calls that need one
  fail with \<open>AuthError\<close>, a login cannot reach the backend, and a refresh of aliases
  reports its failures without raising.
\<close>

definition empty_store :: "nat \<Rightarrow> store" where
  "empty_store version =
     \<lparr>day_logs = [], aliases = [], running_entry = None, previous_running = [],
      schema_version = version\<rparr>"

fun spec_method :: "date \<Rightarrow> nat \<Rightarrow> store \<Rightarrow> store_call \<Rightarrow> error + (val \<times> store)" where
  "spec_method today now s (AddTimesheet code descr d dur pid tid) =
     (case add_timesheet s code descr d dur pid tid of
        Inl e \<Rightarrow> Inl e | Inr s' \<Rightarrow> Inr (VNone, s'))"
| "spec_method today now s (AddAndStartTimesheet code descr tid pid worktime) =
     Inr (VNone, add_and_start_timesheet today now s code descr tid pid worktime)"
| "spec_method today now s StopRunning = Inr (VNone, stop_running now s)"
| "spec_method today now s (EditTimesheet index descr dur code tid pid) =
     (case edit_timesheet today s index descr dur code tid pid of
        Inl e \<Rightarrow> Inl e | Inr (changed, s') \<Rightarrow> Inr (VBool changed, s'))"
| "spec_method today now s (DropTimesheet index) =
     (case drop_timesheet today s index of Inl e \<Rightarrow> Inl e | Inr s' \<Rightarrow> Inr (VNone, s'))"
| "spec_method today now s (Resume index) =
     (case resume_timesheet today now s index of Inl e \<Rightarrow> Inl e | Inr s' \<Rightarrow> Inr (VNone, s'))"
| "spec_method today now s (PrintAliases details) = Inr (VNone, s)"
| "spec_method today now s (AddAlias name code descr pid tid) =
     (case add_alias s name code descr pid tid of Inl e \<Rightarrow> Inl e | Inr s' \<Rightarrow> Inr (VNone, s'))"
| "spec_method today now s (DeleteAlias name) = Inr (VNone, delete_alias s name)"
| "spec_method today now s (UpdateAlias name) = Inr (VNone, s)"
| "spec_method today now s (Push index d) = Inl AuthError"
| "spec_method today now s (OdooSearchTask term) = Inl AuthError"
| "spec_method today now s (PrintDate d) = Inr (VNone, s)"
| "spec_method today now s OdooPrintProjectPlanning = Inl AuthError"
| "spec_method today now s (Login username password hostname ssl port database) = Inl NetworkError"
| "spec_method today now s Logout = Inr (VNone, s)"
| "spec_method today now s (UpdateTimesheetOdooData index) = Inl AuthError"

definition spec_deps :: "date \<Rightarrow> nat \<Rightarrow> nat \<Rightarrow> (nat \<Rightarrow> store \<Rightarrow> store) \<Rightarrow> store deps" where
  "spec_deps today now expected upgrader =
     \<lparr>new_store = empty_store expected,
      store_method = spec_method today now,
      check_and_migrate = spec_check_and_migrate expected upgrader\<rparr>"

text \<open>A sequence of method calls, each at its own date and clock reading. A call that
  fails leaves the store as it was: its transaction is aborted.\<close>

fun run_calls :: "store \<Rightarrow> (date \<times> nat \<times> store_call) list \<Rightarrow> store" where
  "run_calls s [] = s"
| "run_calls s (x # xs) =
     run_calls (case spec_method (fst x) (fst (snd x)) s (snd (snd x)) of
                  Inl e \<Rightarrow> s
                | Inr vs \<Rightarrow> snd vs) xs"

section \<open>Notions for stating the properties\<close>

subsection \<open>The running entry of the specified store\<close>

text \<open>\<open>only_at s p\<close>: every running entry of \<open>s\<close> is the one \<open>p\<close> points at. A store is
  \<open>consistent\<close> when its day logs have distinct dates and every running entry is the one
  its running pointer refers to.\<close>

definition logs :: "store \<Rightarrow> date \<rightharpoonup> entry option list" where
  "logs s = map_of (day_logs s)"

definition only_at :: "store \<Rightarrow> ref option \<Rightarrow> bool" where
  "only_at s p =
     (\<forall>d l i. logs s d = Some l \<longrightarrow> i < length l \<longrightarrow> is_running (l ! i) \<longrightarrow> p = Some (d, i))"

definition consistent :: "store \<Rightarrow> bool" where
  "consistent s = (distinct (map fst (day_logs s)) \<and> only_at s (running_entry s))"

subsection \<open>What a command does to the database\<close>

text \<open>The events of one transaction of \<^verbatim>\<open>ots_filestore\<close>: it begins, the migration check
  runs with the flag \<open>a\<close>, then come method calls, and it ends with a commit (\<open>ok\<close>) or
  an abort. \<open>committed\<close> is the store that the migration check and the calls of the events
  leave, starting from \<open>s\<close>; \<open>new_events\<close> is what a command added to the trace.
  \<open>cmd_ok\<close> says of a command on the database \<open>db\<close> that it opens the store in at most one
  such transaction, that the store is as before when nothing was opened or the command
  failed, that no method is called when the migration check fails, and that a success
  commits exactly the store that the check and the calls leave.\<close>

fun calls_then :: "bool \<Rightarrow> event list \<Rightarrow> bool" where
  "calls_then ok [] = False"
| "calls_then ok (Call c # evs) = calls_then ok evs"
| "calls_then ok [TxCommit] = ok"
| "calls_then ok [TxAbort] = (\<not> ok)"
| "calls_then ok evs = False"

definition one_transaction :: "val \<Rightarrow> bool \<Rightarrow> event list \<Rightarrow> bool" where
  "one_transaction a ok evs =
     (case evs of
        TxBegin # Migrate a' # rest \<Rightarrow> a' = a \<and> calls_then ok rest
      | _ \<Rightarrow> False)"

fun calls_of :: "event list \<Rightarrow> store_call list" where
  "calls_of [] = []"
| "calls_of (Call c # evs) = c # calls_of evs"
| "calls_of (ev # evs) = calls_of evs"

fun replay :: "'st deps \<Rightarrow> 'st \<Rightarrow> store_call list \<Rightarrow> error + 'st" where
  "replay D s [] = Inr s"
| "replay D s (c # cs) =
     (case store_method D s c of Inl e \<Rightarrow> Inl e | Inr vs \<Rightarrow> replay D (snd vs) cs)"

definition committed :: "'st deps \<Rightarrow> 'st \<Rightarrow> val \<Rightarrow> event list \<Rightarrow> 'st option" where
  "committed D s a evs =
     (case check_and_migrate D s a of
        Inl e \<Rightarrow> None
      | Inr s1 \<Rightarrow> (case replay D s1 (calls_of evs) of Inl e \<Rightarrow> None | Inr s2 \<Rightarrow> Some s2))"

definition new_events :: "'st world \<Rightarrow> 'st world \<Rightarrow> event list" where
  "new_events w w' = List.drop (length (trace w)) (trace w')"

definition body_ok :: "'st deps \<Rightarrow> ('st, 'a) io \<Rightarrow> bool" where
  "body_ok D m =
     (\<forall>w s. conn w = Some s \<longrightarrow>
        (\<exists>cs. trace (snd (m w)) = trace w @ map Call cs \<and>
              filestores (snd (m w)) = filestores w \<and>
              (case fst (m w) of
                 Inl e \<Rightarrow> True
               | Inr x \<Rightarrow> (\<exists>s'. conn (snd (m w)) = Some s' \<and> replay D s cs = Inr s'))))"

definition pure_io :: "('st, 'a) io \<Rightarrow> bool" where
  "pure_io m = (\<forall>w. trace (snd (m w)) = trace w \<and> filestores (snd (m w)) = filestores w)"

definition cmd_ok :: "'st deps \<Rightarrow> string \<Rightarrow> val \<Rightarrow> ('st, 'a) io \<Rightarrow> bool" where
  "cmd_ok D db a m =
     (\<forall>w s. filestores w db = Some s \<longrightarrow>
        (let r = fst (m w); w' = snd (m w); evs = new_events w w' in
           trace w' = trace w @ evs \<and>
           (evs = [] \<or> one_transaction a (\<not> isl r) evs) \<and>
           (evs = [] \<or> isl r \<longrightarrow> filestores w' = filestores w) \<and>
           (isl (check_and_migrate D s a) \<longrightarrow> calls_of evs = []) \<and>
           (evs \<noteq> [] \<and> \<not> isl r \<longrightarrow>
              committed D s a evs \<noteq> None \<and>
              filestores w' = (filestores w)(db := committed D s a evs))))"

text \<open>\<open>migrating_with a D\<close> is \<open>D\<close> with a migration check that ignores the flag it is called
  with and works as \<open>D\<close>'s does with the flag \<open>a\<close>.\<close>

definition migrating_with :: "val \<Rightarrow> 'st deps \<Rightarrow> 'st deps" where
  "migrating_with a D = D\<lparr>check_and_migrate := (\<lambda>s flag. check_and_migrate D s a)\<rparr>"

definition keeps_config :: "('st, 'a) io \<Rightarrow> bool" where
  "keeps_config m = (\<forall>w. config_files (snd (m w)) = config_files w)"

subsection \<open>A concrete setting\<close>

text \<open>The specified store at day 10 and minute 100, expecting schema version 1 with
  upgraders that change nothing else; a user who accepts every default and types
  \<open>typed\<close> where there is none; the context object and the world after the group
  callback, with the store \<open>st\<close> in the database.\<close>

definition demo_deps :: "store deps" where
  "demo_deps = spec_deps 10 100 1 (\<lambda>v s. s)"

definition demo_env :: env where
  "demo_env =
     \<lparr>env_today = 10,
      env_prompt = (\<lambda>text dflt. if dflt = VNone then VStr ''typed'' else dflt),
      env_confirm = (\<lambda>text dflt. truthy dflt),
      env_get_help = ''Usage: ots alias update [OPTIONS] [NAME]'',
      env_isoformat = (\<lambda>d. ''2024-01-11''),
      env_parse = (\<lambda>text. Inr 10),
      env_str = (\<lambda>v. ''1'')\<rparr>"

definition demo_obj :: obj where
  "demo_obj = \<lparr>obj_config_dir = ''cfg'', obj_db = Some ''cfg/filestore.fs'', obj_config = Some []\<rparr>"

definition demo_world :: "store \<Rightarrow> store world" where
  "demo_world st =
     \<lparr>config_files = Map.empty, filestores = [''cfg/filestore.fs'' \<mapsto> st], conn = None,
      out = [], trace = []\<rparr>"

definition demo_store :: store where
  "demo_store =
     \<lparr>day_logs = [(10, [Some \<lparr>task_code = Some ''T1'', task_id = None, project_id = None,
                               description = Some ''mail'', duration = 60, is_worktime = True,
                               running = False, start_time = None, remote_ref = None\<rparr>])],
      aliases = [], running_entry = None, previous_running = [], schema_version = 1\<rparr>"


text \<open>A day of work: two starts, a resume of the previous entry and of an entry by index,
  an edit, an entry added for the day before and dropped again, and a resume on the next
  day.\<close>

definition demo_calls :: "(date \<times> nat \<times> store_call) list" where
  "demo_calls =
     [(10, 100, AddAndStartTimesheet (Some ''T1'') (Some ''a'') None None None),
      (10, 130, AddAndStartTimesheet None (Some ''Lunch'') None None (Some False)),
      (10, 150, Resume None),
      (10, 170, Resume (Some ''1'')),
      (10, 180, EditTimesheet ''0'' None (Some ''+00:30'') None None None),
      (10, 185, AddTimesheet ''T2'' None 9 (Some ''01:15'') None None),
      (10, 190, DropTimesheet ''1.0''),
      (11, 200, Resume (Some ''1.0''))]"

section \<open>The specified store keeps its running pointer consistent\<close>

lemma logs_put_entry:
  "logs (put_entry s r x) =
     (case logs s (fst r) of None \<Rightarrow> logs s | Some l \<Rightarrow> (logs s)(fst r \<mapsto> l[snd r := x]))"
  by (simp add: logs_def put_entry_def update_conv' split: option.splits)

lemma logs_append_entry:
  "logs (append_entry s d e) = (logs s)(d \<mapsto> day_log s d @ [Some e])"
  by (simp add: logs_def append_entry_def update_conv')

lemma distinct_put_entry:
  "distinct (map fst (day_logs s)) \<Longrightarrow> distinct (map fst (day_logs (put_entry s r x)))"
  by (simp add: put_entry_def distinct_update split: option.splits)

lemma distinct_append_entry:
  "distinct (map fst (day_logs s)) \<Longrightarrow> distinct (map fst (day_logs (append_entry s d e)))"
  by (simp add: append_entry_def distinct_update)

lemma entry_at_logs:
  "entry_at s r = (case logs s (fst r) of None \<Rightarrow> None
                   | Some l \<Rightarrow> if snd r < length l then l ! snd r else None)"
  by (simp add: entry_at_def logs_def)

lemma day_log_logs: "day_log s d = (case logs s d of None \<Rightarrow> [] | Some l \<Rightarrow> l)"
  by (simp add: day_log_def logs_def)

lemma logs_frame [simp]:
  "logs (s\<lparr>running_entry := p\<rparr>) = logs s"
  "logs (s\<lparr>previous_running := ps\<rparr>) = logs s"
  "logs (s\<lparr>aliases := al\<rparr>) = logs s"
  by (simp_all add: logs_def)

lemma only_at_frame [simp]:
  "only_at (s\<lparr>running_entry := p\<rparr>) q = only_at s q"
  "only_at (s\<lparr>previous_running := ps\<rparr>) q = only_at s q"
  "only_at (s\<lparr>aliases := al\<rparr>) q = only_at s q"
  by (simp_all add: only_at_def)

lemma only_at_put_quiet:
  assumes "only_at s p" and "\<not> is_running x" and "p = Some r \<or> p = None"
  shows "only_at (put_entry s r x) None"
  unfolding only_at_def
proof (intro allI impI)
  fix d l i
  assume l: "logs (put_entry s r x) d = Some l" and i: "i < length l" and run: "is_running (l ! i)"
  show "None = Some (d, i)"
  proof (cases "logs s (fst r)")
    case None
    with l have "logs s d = Some l" by (simp add: logs_put_entry)
    with assms i run have "p = Some (d, i)" by (simp add: only_at_def)
    with assms(3) None \<open>logs s d = Some l\<close> show ?thesis by auto
  next
    case (Some l0)
    show ?thesis
    proof (cases "d = fst r")
      case True
      with l Some have eq: "l = l0[snd r := x]" by (simp add: logs_put_entry)
      with i run assms(2) have ne: "i \<noteq> snd r" by auto
      with eq i run have "i < length l0" "is_running (l0 ! i)" by simp_all
      with assms(1) Some True have "p = Some (d, i)" by (simp add: only_at_def)
      with assms(3) ne True show ?thesis by (cases r) auto
    next
      case False
      with l Some have "logs s d = Some l" by (simp add: logs_put_entry)
      with assms(1) i run have "p = Some (d, i)" by (simp add: only_at_def)
      with assms(3) False show ?thesis by auto
    qed
  qed
qed

lemma only_at_dangling:
  assumes "only_at s (Some r)" and "entry_at s r = None"
  shows "only_at s None"
  unfolding only_at_def
proof (intro allI impI)
  fix d l i
  assume l: "logs s d = Some l" and i: "i < length l" and run: "is_running (l ! i)"
  with assms(1) have "r = (d, i)" by (simp add: only_at_def)
  with assms(2) l i have "l ! i = None" by (simp add: entry_at_logs)
  with run show "None = Some (d, i)" by (simp add: is_running_def)
qed

lemma stopped_not_running: "\<not> is_running (Some (stopped now e))"
  by (simp add: is_running_def stopped_def)

lemma stop_current_quiet:
  assumes "consistent s"
  shows "distinct (map fst (day_logs (stop_current now s))) \<and> only_at (stop_current now s) None
         \<and> running_entry (stop_current now s) = None"
proof (cases "running_entry s")
  case None
  with assms show ?thesis by (simp add: stop_current_def consistent_def)
next
  case (Some r)
  show ?thesis
  proof (cases "entry_at s r")
    case None
    with Some assms only_at_dangling[of s r] show ?thesis
      by (simp add: stop_current_def consistent_def)
  next
    case (Some e)
    have "only_at (put_entry s r (Some (stopped now e))) None"
      using assms \<open>running_entry s = Some r\<close> only_at_put_quiet[of s "Some r" "Some (stopped now e)" r]
      by (simp add: consistent_def stopped_not_running)
    with Some \<open>running_entry s = Some r\<close> assms distinct_put_entry[of s r "Some (stopped now e)"]
    show ?thesis
      by (simp add: stop_current_def consistent_def Let_def)
  qed
qed

lemma only_at_put_running:
  assumes "only_at s None" and "entry_at s r \<noteq> None"
  shows "only_at (put_entry s r x) (Some r)"
  unfolding only_at_def
proof (intro allI impI)
  fix d l i
  assume l: "logs (put_entry s r x) d = Some l" and i: "i < length l" and run: "is_running (l ! i)"
  from assms(2) obtain l0 where l0: "logs s (fst r) = Some l0" "snd r < length l0"
    by (auto simp: entry_at_logs split: option.splits if_splits)
  show "Some r = Some (d, i)"
  proof (cases "d = fst r")
    case True
    with l l0 have eq: "l = l0[snd r := x]" by (simp add: logs_put_entry)
    have "i = snd r"
    proof (rule ccontr)
      assume "i \<noteq> snd r"
      with eq i run have "i < length l0" "is_running (l0 ! i)" by simp_all
      with assms(1) l0 show False by (simp add: only_at_def)
    qed
    with True show ?thesis by (cases r) simp
  next
    case False
    with l l0 have "logs s d = Some l" by (simp add: logs_put_entry)
    with assms(1) i run show ?thesis by (simp add: only_at_def)
  qed
qed

lemma only_at_put_same:
  assumes "only_at s p" and "is_running x \<longrightarrow> is_running (entry_at s r)"
  shows "only_at (put_entry s r x) p"
  unfolding only_at_def
proof (intro allI impI)
  fix d l i
  assume l: "logs (put_entry s r x) d = Some l" and i: "i < length l" and run: "is_running (l ! i)"
  show "p = Some (d, i)"
  proof (cases "logs s (fst r)")
    case None
    with l have "logs s d = Some l" by (simp add: logs_put_entry)
    with assms(1) i run show ?thesis by (simp add: only_at_def)
  next
    case (Some l0)
    show ?thesis
    proof (cases "d = fst r")
      case True
      with l Some have eq: "l = l0[snd r := x]" by (simp add: logs_put_entry)
      with i have i0: "i < length l0" by simp
      have "is_running (l0 ! i)"
      proof (cases "i = snd r")
        case True
        with eq i0 run have "is_running x" by simp
        with assms(2) Some True i0 show ?thesis by (simp add: entry_at_logs)
      next
        case False
        with eq run show ?thesis by simp
      qed
      with assms(1) Some True i0 show ?thesis by (simp add: only_at_def)
    next
      case False
      with l Some have "logs s d = Some l" by (simp add: logs_put_entry)
      with assms(1) i run show ?thesis by (simp add: only_at_def)
    qed
  qed
qed

lemma only_at_append:
  assumes "only_at s p" and "is_running (Some e) \<longrightarrow> p = Some (d0, length (day_log s d0))"
  shows "only_at (append_entry s d0 e) p"
  unfolding only_at_def
proof (intro allI impI)
  fix d l i
  assume l: "logs (append_entry s d0 e) d = Some l" and i: "i < length l" and run: "is_running (l ! i)"
  show "p = Some (d, i)"
  proof (cases "d = d0")
    case True
    with l have eq: "l = day_log s d0 @ [Some e]" by (simp add: logs_append_entry)
    show ?thesis
    proof (cases "i < length (day_log s d0)")
      case True
      with eq run have r0: "is_running (day_log s d0 ! i)" by (simp add: nth_append)
      from True obtain l0 where "logs s d0 = Some l0" "day_log s d0 = l0"
        by (auto simp: day_log_logs split: option.splits)
      with assms(1) True r0 \<open>d = d0\<close> show ?thesis by (simp add: only_at_def)
    next
      case False
      with eq i have "i = length (day_log s d0)" by simp
      with eq run assms(2) True show ?thesis by simp
    qed
  next
    case False
    with l have "logs s d = Some l" by (simp add: logs_append_entry)
    with assms(1) i run show ?thesis by (simp add: only_at_def)
  qed
qed


lemma sum_zero: "(\<forall>x\<in>set xs. f x = (0::nat)) \<Longrightarrow> sum_list (map f xs) = 0"
  by (induction xs) auto

lemma sum_at_most_one:
  assumes "distinct (map fst al)"
    and "\<forall>x\<in>set al. f x \<le> (1::nat) \<and> (0 < f x \<longrightarrow> fst x = k)"
  shows "sum_list (map f al) \<le> 1"
  using assms
proof (induction al)
  case Nil
  then show ?case by simp
next
  case (Cons x xs)
  show ?case
  proof (cases "0 < f x")
    case True
    with Cons.prems have "fst x = k" by simp
    have "\<forall>y\<in>set xs. f y = 0"
    proof
      fix y assume y: "y \<in> set xs"
      then have "fst y \<in> fst ` set xs" by (rule imageI)
      moreover from Cons.prems(1) have "fst x \<notin> fst ` set xs" by simp
      ultimately have "fst y \<noteq> fst x" by metis
      with y Cons.prems(2) \<open>fst x = k\<close> have "\<not> 0 < f y" by auto
      then show "f y = 0" by simp
    qed
    then have "sum_list (map f xs) = 0" by (rule sum_zero)
    moreover from Cons.prems have "f x \<le> 1" by simp
    ultimately show ?thesis by (simp del: sum_list_eq_0_iff)
  next
    case False
    with Cons show ?thesis by simp
  qed
qed

lemma filter_at_most_one:
  assumes "\<forall>i<length l. P (l ! i) \<longrightarrow> i = j"
  shows "length (filter P l) \<le> 1"
proof -
  have "{i. i < length l \<and> P (l ! i)} \<subseteq> {j}" using assms by auto
  then have "card {i. i < length l \<and> P (l ! i)} \<le> card {j}"
    by (intro card_mono) auto
  then show ?thesis by (simp add: length_filter_conv_card)
qed

lemma consistent_running_count:
  assumes "consistent s"
  shows "running_count s \<le> 1"
proof -
  let ?f = "\<lambda>dl. length (filter is_running (snd dl))"
  let ?k = "case running_entry s of None \<Rightarrow> 0 | Some r \<Rightarrow> fst r"
  let ?j = "case running_entry s of None \<Rightarrow> 0 | Some r \<Rightarrow> snd r"
  from assms have dist: "distinct (map fst (day_logs s))" by (simp add: consistent_def)
  have "\<forall>x\<in>set (day_logs s). ?f x \<le> 1 \<and> (0 < ?f x \<longrightarrow> fst x = ?k)"
  proof
    fix x assume x: "x \<in> set (day_logs s)"
    with dist have lg: "logs s (fst x) = Some (snd x)" by (simp add: logs_def)
    with assms have at: "\<forall>i<length (snd x). is_running (snd x ! i) \<longrightarrow> running_entry s = Some (fst x, i)"
      by (simp add: consistent_def only_at_def)
    then have "\<forall>i<length (snd x). is_running (snd x ! i) \<longrightarrow> i = ?j" by auto
    then have le: "?f x \<le> 1" by (rule filter_at_most_one)
    have "0 < ?f x \<longrightarrow> fst x = ?k"
    proof
      assume "0 < ?f x"
      then obtain y where "y \<in> set (snd x)" "is_running y"
        by (auto simp: length_greater_0_conv[symmetric] filter_empty_conv simp del: length_greater_0_conv)
      then obtain i where "i < length (snd x)" "is_running (snd x ! i)"
        by (auto simp: in_set_conv_nth)
      with at show "fst x = ?k" by auto
    qed
    with le show "?f x \<le> 1 \<and> (0 < ?f x \<longrightarrow> fst x = ?k)" by simp
  qed
  with dist have "sum_list (map ?f (day_logs s)) \<le> 1" by (rule sum_at_most_one)
  then show ?thesis by (simp add: running_count_def)
qed


lemma only_at_None_any: "only_at s None \<Longrightarrow> only_at s p"
  by (simp add: only_at_def)

lemma running_entry_put_entry [simp]: "running_entry (put_entry s r x) = running_entry s"
  by (simp add: put_entry_def split: option.splits)

lemma running_entry_append_entry [simp]: "running_entry (append_entry s d e) = running_entry s"
  by (simp add: append_entry_def)

lemma consistent_empty_store: "consistent (empty_store v)"
  by (simp add: consistent_def only_at_def logs_def empty_store_def)

lemma consistent_stop_running: "consistent s \<Longrightarrow> consistent (stop_running now s)"
  using stop_current_quiet[of s now] by (simp add: stop_running_def consistent_def)

lemma consistent_add_and_start:
  assumes "consistent s"
  shows "consistent (add_and_start_timesheet today now s code descr tid pid worktime)"
proof -
  let ?s1 = "stop_current now s"
  from assms have q: "distinct (map fst (day_logs ?s1))" "only_at ?s1 None"
    using stop_current_quiet[of s now] by simp_all
  let ?p = "Some (today, length (day_log ?s1 today))"
  from q(2) have "only_at ?s1 ?p" by (rule only_at_None_any)
  then have "only_at (append_entry ?s1 today e) ?p" for e
    by (rule only_at_append) simp
  with q(1) show ?thesis
    by (simp add: add_and_start_timesheet_def consistent_def Let_def distinct_append_entry)
qed

lemma consistent_reopen:
  assumes "distinct (map fst (day_logs s))" and "only_at s None" and "reopen now r s = Inr s'"
  shows "consistent s'"
proof -
  from assms(3) obtain e where e: "entry_at s r = Some e"
    and s': "s' = (put_entry s r (Some (e\<lparr>running := True, start_time := Some now\<rparr>)))
                    \<lparr>running_entry := Some r\<rparr>"
    by (auto simp: reopen_def split: option.splits)
  from assms(2) e have "only_at (put_entry s r (Some (e\<lparr>running := True, start_time := Some now\<rparr>))) (Some r)"
    by (intro only_at_put_running) simp_all
  with assms(1) s' show ?thesis
    by (simp add: consistent_def distinct_put_entry)
qed

lemma consistent_previous: "consistent s \<Longrightarrow> consistent (s\<lparr>previous_running := ps\<rparr>)"
  by (simp add: consistent_def)

lemma consistent_resume:
  assumes "consistent s" and "resume_timesheet today now s index = Inr s'"
  shows "consistent s'"
proof (cases index)
  case None
  with assms(2) obtain r rest where "previous_running s = r # rest"
    and "reopen now r (stop_current now (s\<lparr>previous_running := rest\<rparr>)) = Inr s'"
    by (auto simp: resume_timesheet_def split: list.splits)
  with stop_current_quiet[OF consistent_previous[OF assms(1)], where now = now and ps1 = rest] show ?thesis
    by (auto intro: consistent_reopen)
next
  case (Some i)
  with assms(2) obtain r where "reopen now r (stop_current now s) = Inr s'"
    by (auto simp: resume_timesheet_def split: sum.splits)
  with stop_current_quiet[OF assms(1), where now = now] show ?thesis
    by (auto intro: consistent_reopen)
qed

lemma make_entry_not_running: "\<not> running (make_entry s code descr tid pid worktime)"
  by (simp add: make_entry_def split: option.splits)

lemma consistent_add_timesheet:
  assumes "consistent s" and "add_timesheet s code descr d dur pid tid = Inr s'"
  shows "consistent s'"
proof -
  from assms(2) obtain e where s': "s' = append_entry s d e" and e: "\<not> is_running (Some e)"
    by (auto simp: add_timesheet_def is_running_def make_entry_not_running split: option.splits)
  from assms(1) have "only_at s (running_entry s)" by (simp add: consistent_def)
  then have "only_at (append_entry s d e) (running_entry s)"
    by (rule only_at_append) (simp add: e)
  with assms(1) s' show ?thesis by (simp add: consistent_def distinct_append_entry)
qed

lemma consistent_put_same:
  assumes "consistent s" and "is_running x \<longrightarrow> is_running (entry_at s r)"
  shows "consistent (put_entry s r x)"
  using assms only_at_put_same[of s "running_entry s" x r]
  by (simp add: consistent_def distinct_put_entry)

lemma running_edited [simp]: "running (edited e descr minutes code tid pid) = running e"
  by (simp add: edited_def)

lemma consistent_edit:
  assumes "consistent s" and "edit_timesheet today s index descr dur code tid pid = Inr (b, s')"
  shows "consistent s'"
proof -
  from assms(2) obtain r e minutes where e: "entry_at s r = Some e"
    and s': "s' = put_entry s r (Some (edited e descr minutes code tid pid))"
    by (auto simp: edit_timesheet_def split: sum.splits option.splits)
  from assms(1) have "consistent (put_entry s r (Some (edited e descr minutes code tid pid)))"
    by (rule consistent_put_same) (simp add: e is_running_def)
  with s' show ?thesis by simp
qed

lemma consistent_drop:
  assumes "consistent s" and "drop_timesheet today s index = Inr s'"
  shows "consistent s'"
proof -
  from assms(2) obtain r where s': "s' = put_entry s r None"
    by (auto simp: drop_timesheet_def split: sum.splits)
  from assms(1) have "consistent (put_entry s r None)"
    by (rule consistent_put_same) (simp add: is_running_def)
  with s' show ?thesis by simp
qed

lemma consistent_aliases: "consistent s \<Longrightarrow> consistent (s\<lparr>aliases := al\<rparr>)"
  by (simp add: consistent_def)

lemma consistent_spec_method:
  assumes "consistent s" and "spec_method today now s c = Inr (v, s')"
  shows "consistent s'"
proof (cases c)
  case (AddTimesheet code descr d dur pid tid)
  with assms show ?thesis by (auto split: sum.splits dest: consistent_add_timesheet)
next
  case (AddAndStartTimesheet code descr tid pid worktime)
  with assms show ?thesis by (auto intro: consistent_add_and_start)
next
  case StopRunning
  with assms show ?thesis by (auto intro: consistent_stop_running)
next
  case (EditTimesheet index descr dur code tid pid)
  with assms show ?thesis by (auto split: sum.splits dest: consistent_edit)
next
  case (DropTimesheet index)
  with assms show ?thesis by (auto split: sum.splits dest: consistent_drop)
next
  case (Resume index)
  with assms show ?thesis by (auto split: sum.splits dest: consistent_resume)
next
  case (AddAlias name code descr pid tid)
  with assms show ?thesis
    by (auto simp: add_alias_def split: sum.splits if_splits intro: consistent_aliases)
next
  case (DeleteAlias name)
  with assms show ?thesis by (auto simp: delete_alias_def intro: consistent_aliases)
qed (use assms in auto)

lemma consistent_run_calls: "consistent s \<Longrightarrow> consistent (run_calls s cs)"
proof (induction cs arbitrary: s)
  case Nil
  then show ?case by simp
next
  case (Cons x xs)
  show ?case
  proof (cases "spec_method (fst x) (fst (snd x)) s (snd (snd x))")
    case (Inl e)
    with Cons show ?thesis by simp
  next
    case (Inr vs)
    with Cons.prems have "consistent (snd vs)"
      using consistent_spec_method[of s "fst x" "fst (snd x)" "snd (snd x)" "fst vs" "snd vs"] by simp
    with Cons.IH Inr show ?thesis by simp
  qed
qed

lemma entry_at_append_entry:
  "entry_at (append_entry s d e) (d, length (day_log s d)) = Some e"
  by (simp add: entry_at_def append_entry_def update_conv')

section \<open>Every command opens the store in one transaction\<close>

lemma replay_append:
  "replay D s (cs @ ds) = (case replay D s cs of Inl e \<Rightarrow> Inl e | Inr s' \<Rightarrow> replay D s' ds)"
  by (induction cs arbitrary: s) (auto split: sum.splits)

lemma calls_of_map_Call [simp]: "calls_of (map Call cs) = cs"
  by (induction cs) auto

lemma calls_of_append [simp]: "calls_of (xs @ ys) = calls_of xs @ calls_of ys"
  by (induction xs rule: calls_of.induct) auto

lemma calls_then_map_Call [simp]:
  "calls_then ok (map Call cs @ [TxCommit]) = ok"
  "calls_then ok (map Call cs @ [TxAbort]) = (\<not> ok)"
  by (induction cs) auto

lemma body_ok_succeed [intro!, simp]: "body_ok D (succeed x)"
  unfolding body_ok_def succeed_def
  by (intro allI impI exI[of _ "[]"]) simp

lemma body_ok_click_echo [intro!, simp]: "body_ok D (click_echo t)"
  unfolding body_ok_def click_echo_def
  by (intro allI impI exI[of _ "[]"]) simp

lemma body_ok_call [intro!, simp]: "body_ok D (call D c)"
  unfolding body_ok_def call_def
  by (intro allI impI exI[of _ "[c]"]) (auto split: sum.splits simp: Let_def)

lemma body_ok_and_then [intro!]:
  fixes m :: "('st, 'a) io" and f :: "'a \<Rightarrow> ('st, 'b) io"
  assumes "body_ok D m" and "\<And>x. body_ok D (f x)"
  shows "body_ok D (and_then m f)"
  unfolding body_ok_def
proof (intro allI impI)
  fix w :: "'st world" and s assume c: "conn w = Some s"
  from assms(1) c obtain cs where cs: "trace (snd (m w)) = trace w @ map Call cs"
      "filestores (snd (m w)) = filestores w"
      "case fst (m w) of Inl e \<Rightarrow> True
       | Inr x \<Rightarrow> (\<exists>s'. conn (snd (m w)) = Some s' \<and> replay D s cs = Inr s')"
    unfolding body_ok_def by blast
  show "\<exists>cs. trace (snd (and_then m f w)) = trace w @ map Call cs \<and>
              filestores (snd (and_then m f w)) = filestores w \<and>
              (case fst (and_then m f w) of
                 Inl e \<Rightarrow> True
               | Inr x \<Rightarrow> (\<exists>s'. conn (snd (and_then m f w)) = Some s' \<and> replay D s cs = Inr s'))"
  proof (cases "m w")
    case (Pair r w1)
    show ?thesis
    proof (cases r)
      case (Inl e)
      with Pair cs show ?thesis
        by (intro exI[of _ cs]) (simp add: and_then_def)
    next
      case (Inr x)
      with Pair cs(3) obtain s1 where s1: "conn w1 = Some s1" "replay D s cs = Inr s1" by auto
      from assms(2)[of x] s1(1) obtain ds where ds: "trace (snd (f x w1)) = trace w1 @ map Call ds"
        "filestores (snd (f x w1)) = filestores w1"
        "case fst (f x w1) of Inl e \<Rightarrow> True
         | Inr y \<Rightarrow> (\<exists>s'. conn (snd (f x w1)) = Some s' \<and> replay D s1 ds = Inr s')"
        unfolding body_ok_def by blast
      from Pair Inr have eq: "and_then m f w = f x w1" by (simp add: and_then_def)
      from ds cs Pair s1 show ?thesis
        unfolding eq
        by (intro exI[of _ "cs @ ds"]) (auto simp: replay_append split: sum.splits)
    qed
  qed
qed

lemma body_ok_if [intro!]: "body_ok D m \<Longrightarrow> body_ok D n \<Longrightarrow> body_ok D (if b then m else n)"
  by simp

lemma body_ok_print_dates [intro!, simp]: "body_ok D (print_dates D date_obj ks)"
  by (induction ks) auto



lemma pure_io_basic [intro!, simp]:
  "pure_io (succeed x)" "pure_io (raise e)" "pure_io (click_echo t)"
  "pure_io (save_config config path)" "pure_io (\<lambda>w. (r, w))"
  by (simp_all add: pure_io_def succeed_def raise_def click_echo_def save_config_def)

lemma cmd_ok_pure [intro]:
  assumes "pure_io m"
  shows "cmd_ok D db a m"
  using assms by (simp add: cmd_ok_def pure_io_def new_events_def)

lemma cmd_ok_prelude [intro]:
  fixes m :: "('st, 'a) io" and f :: "'a \<Rightarrow> ('st, 'b) io"
  assumes "pure_io m" and "\<And>x. cmd_ok D db a (f x)"
  shows "cmd_ok D db a (and_then m f)"
  unfolding cmd_ok_def
proof (intro allI impI)
  fix w :: "'st world" and s assume fs: "filestores w db = Some s"
  obtain r w1 where mw: "m w = (r, w1)" by (cases "m w")
  with assms(1) have w1: "trace w1 = trace w" "filestores w1 = filestores w"
    by (auto simp: pure_io_def dest: spec[of _ w])
  show "let r = fst (and_then m f w); w' = snd (and_then m f w); evs = new_events w w' in
           trace w' = trace w @ evs \<and>
           (evs = [] \<or> one_transaction a (\<not> isl r) evs) \<and>
           (evs = [] \<or> isl r \<longrightarrow> filestores w' = filestores w) \<and>
           (isl (check_and_migrate D s a) \<longrightarrow> calls_of evs = []) \<and>
           (evs \<noteq> [] \<and> \<not> isl r \<longrightarrow>
              committed D s a evs \<noteq> None \<and>
              filestores w' = (filestores w)(db := committed D s a evs))"
  proof (cases r)
    case (Inl e)
    with mw w1 show ?thesis by (simp add: and_then_def new_events_def)
  next
    case (Inr x)
    with mw have eq: "and_then m f w = f x w1" by (simp add: and_then_def)
    from w1 have ne: "new_events w w' = new_events w1 w'" for w' by (simp add: new_events_def)
    from assms(2)[of x] fs w1 show ?thesis
      unfolding eq ne cmd_ok_def by (auto simp: Let_def)
  qed
qed

lemma ots_filestore_run:
  assumes "obj_db obj = Some db" and "filestores w db = Some s"
    and "dict_get (get_config obj) ''auto_migrate'' (VBool True) = a"
  shows "ots_filestore D obj body w =
     (case check_and_migrate D s a of
        Inl e \<Rightarrow> (Inl e, w\<lparr>conn := None, trace := trace w @ [TxBegin, Migrate a, TxAbort]\<rparr>)
      | Inr s1 \<Rightarrow>
          (case body (w\<lparr>trace := trace w @ [TxBegin, Migrate a], conn := Some s1\<rparr>) of
             (Inl e, w3) \<Rightarrow> (Inl e, w3\<lparr>conn := None, trace := trace w3 @ [TxAbort]\<rparr>)
           | (Inr x, w3) \<Rightarrow>
               (Inr x, w3\<lparr>filestores := (filestores w3)(db := conn w3), conn := None,
                           trace := trace w3 @ [TxCommit]\<rparr>)))"
proof (cases "check_and_migrate D s a")
  case (Inl e)
  with assms show ?thesis
    by (simp add: ots_filestore_def get_database_def transaction_def and_then_def
        migrate_step_def Let_def)
next
  case (Inr s1)
  obtain r w3 where "body (w\<lparr>trace := trace w @ [TxBegin, Migrate a], conn := Some s1\<rparr>) = (r, w3)"
    by (cases "body (w\<lparr>trace := trace w @ [TxBegin, Migrate a], conn := Some s1\<rparr>)")
  with assms Inr show ?thesis
    by (cases r)
      (simp_all add: ots_filestore_def get_database_def transaction_def and_then_def
        migrate_step_def Let_def)
qed

lemma cmd_ok_ots_filestore [intro]:
  fixes body :: "('st, 'a) io"
  assumes db: "obj_db obj = Some db"
    and a: "dict_get (get_config obj) ''auto_migrate'' (VBool True) = a"
    and body: "body_ok D body"
  shows "cmd_ok D db a (ots_filestore D obj body)"
  unfolding cmd_ok_def
proof (intro allI impI)
  fix w :: "'st world" and s assume fs: "filestores w db = Some s"
  let ?m = "ots_filestore D obj body"
  note run = ots_filestore_run[OF db fs a, of D body]
  show "let r = fst (?m w); w' = snd (?m w); evs = new_events w w' in
           trace w' = trace w @ evs \<and>
           (evs = [] \<or> one_transaction a (\<not> isl r) evs) \<and>
           (evs = [] \<or> isl r \<longrightarrow> filestores w' = filestores w) \<and>
           (isl (check_and_migrate D s a) \<longrightarrow> calls_of evs = []) \<and>
           (evs \<noteq> [] \<and> \<not> isl r \<longrightarrow>
              committed D s a evs \<noteq> None \<and>
              filestores w' = (filestores w)(db := committed D s a evs))"
  proof (cases "check_and_migrate D s a")
    case (Inl e)
    with run have "?m w = (Inl e, w\<lparr>conn := None, trace := trace w @ [TxBegin, Migrate a, TxAbort]\<rparr>)"
      by simp
    with Inl show ?thesis
      by (simp add: Let_def new_events_def one_transaction_def)
  next
    case (Inr s1)
    define w2 where "w2 = w\<lparr>trace := trace w @ [TxBegin, Migrate a], conn := Some s1\<rparr>"
    have w2: "conn w2 = Some s1" "trace w2 = trace w @ [TxBegin, Migrate a]"
      "filestores w2 = filestores w" by (simp_all add: w2_def)
    obtain r w3 where bw: "body w2 = (r, w3)" by (cases "body w2")
    from body w2(1) have "\<exists>cs. trace (snd (body w2)) = trace w2 @ map Call cs \<and>
              filestores (snd (body w2)) = filestores w2 \<and>
              (case fst (body w2) of
                 Inl e \<Rightarrow> True
               | Inr x \<Rightarrow> (\<exists>s'. conn (snd (body w2)) = Some s' \<and> replay D s1 cs = Inr s'))"
      unfolding body_ok_def by blast
    then obtain cs where cs0: "trace (snd (body w2)) = trace w2 @ map Call cs"
      "filestores (snd (body w2)) = filestores w2"
      "case fst (body w2) of
         Inl e \<Rightarrow> True
       | Inr x \<Rightarrow> (\<exists>s'. conn (snd (body w2)) = Some s' \<and> replay D s1 cs = Inr s')"
      by blast
    have cs: "trace w3 = trace w @ [TxBegin, Migrate a] @ map Call cs"
      "filestores w3 = filestores w"
      "case r of Inl e \<Rightarrow> True
       | Inr x \<Rightarrow> (\<exists>s'. conn w3 = Some s' \<and> replay D s1 cs = Inr s')"
      using cs0 unfolding bw w2 by (simp_all split: sum.splits)
    from run Inr bw have run': "?m w =
        (case r of
           Inl e \<Rightarrow> (Inl e, w3\<lparr>conn := None, trace := trace w3 @ [TxAbort]\<rparr>)
         | Inr x \<Rightarrow> (Inr x, w3\<lparr>filestores := (filestores w3)(db := conn w3), conn := None,
                                 trace := trace w3 @ [TxCommit]\<rparr>))"
      by (simp add: w2_def split: sum.splits)
    show ?thesis
    proof (cases r)
      case (Inl e)
      with run' cs Inr show ?thesis
        by (simp add: Let_def new_events_def one_transaction_def)
    next
      case (Inr x)
      with cs(3) obtain s2 where s2: "conn w3 = Some s2" "replay D s1 cs = Inr s2" by auto
      with run' cs Inr \<open>check_and_migrate D s a = Inr s1\<close> show ?thesis
        by (simp add: Let_def new_events_def one_transaction_def committed_def)
    qed
  qed
qed

lemma cmd_ok_if [intro]:
  "(b \<Longrightarrow> cmd_ok D db a m) \<Longrightarrow> (\<not> b \<Longrightarrow> cmd_ok D db a n) \<Longrightarrow> cmd_ok D db a (if b then m else n)"
  by simp

lemma dict_get_dict_update:
  "k \<notin> fst ` set kvs \<Longrightarrow> dict_get (dict_update d kvs) k dflt = dict_get d k dflt"
  unfolding dict_get_def dict_update_def
  by (induction kvs arbitrary: d) (auto simp: update_conv')

lemma and_then_succeed [simp]: "and_then (succeed x) f = f x"
  by (rule ext) (simp add: and_then_def succeed_def)

lemma invoke_cmd_ok:
  assumes db: "obj_db obj = Some db"
  shows "cmd_ok D db (dict_get (get_config obj) ''auto_migrate'' (VBool True)) (invoke D E obj c)"
proof (cases c)
  case (LoginCmd database)
  show ?thesis
    unfolding LoginCmd invoke.simps login_def Let_def
    by (rule cmd_ok_prelude, simp, rule cmd_ok_ots_filestore)
      (auto simp: db get_config_def dict_get_dict_update split: option.splits)
next
  case (Setup advanced)
  show ?thesis
    unfolding Setup invoke.simps setup_cmd_def Let_def
    by (auto split: val.splits)
next
  case (ListCmd days date)
  show ?thesis
    unfolding ListCmd invoke.simps list_timesheets_def
    by (rule cmd_ok_prelude) (auto simp: db)
qed (auto simp: db add_def start_def stop_def edit_def transfer_def drop_cmd_def lunch_def
      resume_def alias_grp_def alias_list_def alias_add_def alias_delete_def alias_update_def
      push_def search_def planning_def logout_def update_def Let_def)

lemma cli_run:
  "cli D config_dir w =
     (case dict_get (load_config w config_dir) ''filestore'' (VStr OTS_DEFAULT_FILESTORE_FILE_NAME) of
        VStr name \<Rightarrow>
          (Inr \<lparr>obj_config_dir = config_dir, obj_db = Some (config_dir @ ''/'' @ name),
                obj_config = Some (load_config w config_dir)\<rparr>,
           w\<lparr>filestores := (filestores w)(config_dir @ ''/'' @ name \<mapsto>
                 (case filestores w (config_dir @ ''/'' @ name) of
                    None \<Rightarrow> new_store D | Some s \<Rightarrow> s)),
             conn := None, trace := trace w @ [TxBegin, TxCommit]\<rparr>)
      | _ \<Rightarrow> (Inl (PyError ''TypeError''), w))"
  by (simp add: cli_def do_setup_def Let_def and_then_def transaction_def succeed_def
      split: val.splits option.splits)

lemma keeps_config_basic [simp]:
  "keeps_config (succeed x)" "keeps_config (raise e)" "keeps_config (click_echo t)"
  "keeps_config (call D c)" "keeps_config (migrate_step D a)"
  by (simp_all add: keeps_config_def succeed_def raise_def click_echo_def call_def migrate_step_def
      Let_def split: option.splits sum.splits)






lemma migrating_with_simps [simp]:
  "store_method (migrating_with a D) = store_method D"
  "new_store (migrating_with a D) = new_store D"
  "check_and_migrate (migrating_with a D) s flag = check_and_migrate D s a"
  by (simp_all add: migrating_with_def)

lemma call_migrating_with [simp]: "call (migrating_with a D) c = call D c"
  by (rule ext) (simp add: call_def split: option.splits)

lemma print_dates_migrating_with [simp]:
  "print_dates (migrating_with a D) date_obj ks = print_dates D date_obj ks"
  by (induction ks) simp_all


lemma cli_migrating_with [simp]: "cli (migrating_with a D) config_dir = cli D config_dir"
  by (rule ext) (simp add: cli_run split: val.splits option.splits)




section \<open>Unfolding the definitions on concrete inputs\<close>

lemmas run_defs = ots_filestore_def get_database_def transaction_def and_then_def
  migrate_step_def call_def succeed_def raise_def click_echo_def get_config_def dict_get_def
lemmas demo_defs = demo_deps_def demo_env_def demo_obj_def demo_world_def demo_store_def
  spec_deps_def spec_check_and_migrate_def empty_store_def
lemmas store_defs = edit_timesheet_def resolve_def parse_index_def parse_nat_def is_digit_def
  entry_at_def put_entry_def edited_def add_and_start_timesheet_def stop_current_def
  make_entry_def append_entry_def day_log_def new_events_def one_transaction_def committed_def

lemmas codec_defs = parse_def parse_delta_def parse_nat_def is_digit_def

section \<open>The claims\<close>

text \<open>
  C1. At most one entry of the whole store has \<open>running = true\<close> after every operation:
  whatever sequence of method calls (\<open>add_and_start_timesheet\<close> as the commands start and
  lunch make it, \<open>stop_running\<close>, \<open>resume\<close>, \<open>add_timesheet\<close>, \<open>edit_timesheet\<close>,
  \<open>drop_timesheet\<close>, and the others of the command line) runs on a new store, each at any
  date and clock reading, the store reached has at most one running entry. The store is
  the one of the specification; the class itself is not in the source.
\<close>

theorem single_running_entry: "running_count (run_calls (empty_store v) cs) \<le> 1"
  by (intro consistent_running_count consistent_run_calls consistent_empty_store)

theorem single_running_entry_witness:
  "running_count (run_calls (empty_store 1) demo_calls) \<le> 1 \<and>
   running_entry (run_calls (empty_store 1) demo_calls) = Some (10, 0) \<and>
   map (\<lambda>n. running_count (run_calls (empty_store 1) (take n demo_calls)))
     [0, 1, 2, 3, 4, 5, 6, 7, 8] = [0, 1, 1, 1, 1, 1, 1, 1, 1]"
proof -
  have e: "running_entry (run_calls (empty_store 1) demo_calls) = Some (10, 0)"
    by code_simp
  have c: "map (\<lambda>n. running_count (run_calls (empty_store 1) (take n demo_calls)))
     [0, 1, 2, 3, 4, 5, 6, 7, 8] = [0, 1, 1, 1, 1, 1, 1, 1, 1]"
    by code_simp
  from single_running_entry[of 1 demo_calls] e c show ?thesis by blast
qed

text \<open>
  C2. For every command that opens the timesheet store, the migration check
  (\<^verbatim>\<open>check_and_migrate\<close> with the configured \<^verbatim>\<open>auto_migrate\<close> flag) runs on the
  store before the command's core operation, inside the same transaction, and a failure
  discards the whole operation. Stated for any command \<open>c\<close> on a database that holds a
  store \<open>s\<close>, over any implementation \<open>D\<close> of the store and the migration: what the
  command adds to the trace is nothing, or one transaction that begins, runs the
  migration check with the configured flag, then the method calls, and ends with a commit
  exactly when the command succeeds; when nothing was opened or the command fails, the
  committed stores are as before; when the migration check fails, no method is called;
  and a success commits the store that the check and then the calls leave.
\<close>

theorem migration_inside_transaction:
  assumes "obj_db obj = Some db" and "filestores w db = Some s"
  shows "let a = dict_get (get_config obj) ''auto_migrate'' (VBool True);
             r = fst (invoke D E obj c w); w' = snd (invoke D E obj c w);
             evs = new_events w w'
         in trace w' = trace w @ evs \<and>
            (evs = [] \<or> one_transaction a (\<not> isl r) evs) \<and>
            (evs = [] \<or> isl r \<longrightarrow> filestores w' = filestores w) \<and>
            (isl (check_and_migrate D s a) \<longrightarrow> calls_of evs = []) \<and>
            (evs \<noteq> [] \<and> \<not> isl r \<longrightarrow>
               committed D s a evs \<noteq> None \<and>
               filestores w' = (filestores w)(db := committed D s a evs))"
  using invoke_cmd_ok[OF assms(1), of D E c] assms(2) unfolding cmd_ok_def
  by (simp add: Let_def)

theorem migration_inside_transaction_witness:
  "obj_db demo_obj = Some ''cfg/filestore.fs'' \<and>
   filestores (demo_world demo_store) ''cfg/filestore.fs'' = Some demo_store \<and>
   fst (invoke demo_deps demo_env demo_obj (Edit ''5'' (Some ''x'') None None None None)
          (demo_world demo_store)) = Inl AddressError \<and>
   new_events (demo_world demo_store)
     (snd (invoke demo_deps demo_env demo_obj (Edit ''5'' (Some ''x'') None None None None)
          (demo_world demo_store))) =
     [TxBegin, Migrate (VBool True), Call (EditTimesheet ''5'' (Some ''x'') None None None None),
      TxAbort] \<and>
   filestores (snd (invoke demo_deps demo_env demo_obj (Edit ''5'' (Some ''x'') None None None None)
          (demo_world demo_store))) = filestores (demo_world demo_store) \<and>
   fst (invoke demo_deps demo_env demo_obj (Drop ''0'' True) (demo_world demo_store)) = Inr () \<and>
   new_events (demo_world demo_store)
     (snd (invoke demo_deps demo_env demo_obj (Drop ''0'' True) (demo_world demo_store))) =
     [TxBegin, Migrate (VBool True), Call (DropTimesheet ''0''), TxCommit] \<and>
   filestores (snd (invoke demo_deps demo_env demo_obj (Drop ''0'' True) (demo_world demo_store)))
     ''cfg/filestore.fs'' = Some (demo_store\<lparr>day_logs := [(10, [None])]\<rparr>)"
proof -
  have h1: "obj_db demo_obj = Some ''cfg/filestore.fs''" by (simp add: demo_obj_def)
  have h2: "filestores (demo_world demo_store) ''cfg/filestore.fs'' = Some demo_store"
    by (simp add: demo_world_def)
  have tr0: "trace (demo_world demo_store) = []" by (simp add: demo_world_def)
  have run: "invoke demo_deps demo_env demo_obj (Edit ''5'' (Some ''x'') None None None None)
      (demo_world demo_store) =
     (Inl AddressError,
      (demo_world demo_store)\<lparr>trace := [TxBegin, Migrate (VBool True),
         Call (EditTimesheet ''5'' (Some ''x'') None None None None), TxAbort]\<rparr>)"
    by (simp add: edit_def run_defs demo_defs store_defs)
  have run2: "invoke demo_deps demo_env demo_obj (Drop ''0'' True) (demo_world demo_store) =
     (Inr (),
      (demo_world demo_store)\<lparr>trace := [TxBegin, Migrate (VBool True),
         Call (DropTimesheet ''0''), TxCommit],
         filestores := [''cfg/filestore.fs'' \<mapsto> demo_store\<lparr>day_logs := [(10, [None])]\<rparr>]\<rparr>)"
    by (simp add: drop_cmd_def drop_timesheet_def run_defs demo_defs store_defs)
  from migration_inside_transaction[OF h1 h2, of demo_deps demo_env
      "Edit ''5'' (Some ''x'') None None None None"]
    migration_inside_transaction[OF h1 h2, of demo_deps demo_env "Drop ''0'' True"]
    h1 h2 run run2 tr0
  show ?thesis
    by (simp add: new_events_def)
qed

text \<open>
  C3. The claim says that push given both an index and a date fails with a usage error and
  does not invoke the store's push operation. The code builds the \<^verbatim>\<open>UsageError\<close> and does
  not raise it. What the code does with both given (and \<^verbatim>\<open>--force\<close>), on a database
  whose store passes the migration check: it calls the store's push with the index and the
  date, and the outcome of the command is the outcome of that call.
\<close>

theorem push_index_and_date_not_rejected:
  assumes "obj_db obj = Some db" and "filestores w db = Some s"
    and "check_and_migrate D s (dict_get (get_config obj) ''auto_migrate'' (VBool True)) = Inr s1"
  shows "fst (push D E obj (Some i) (Some d) True w) =
           (case store_method D s1 (Push (Some i) (Some d)) of Inl e \<Rightarrow> Inl e | Inr vs \<Rightarrow> Inr ()) \<and>
         new_events w (snd (push D E obj (Some i) (Some d) True w)) =
           [TxBegin, Migrate (dict_get (get_config obj) ''auto_migrate'' (VBool True)),
            Call (Push (Some i) (Some d)),
            case store_method D s1 (Push (Some i) (Some d)) of Inl e \<Rightarrow> TxAbort | Inr vs \<Rightarrow> TxCommit]"
  using assms(3)
  by (simp add: push_def Let_def ots_filestore_run[OF assms(1,2) refl] and_then_def call_def
      succeed_def new_events_def split: sum.splits)

theorem push_index_and_date_not_rejected_witness:
  "obj_db demo_obj = Some ''cfg/filestore.fs'' \<and>
   filestores (demo_world demo_store) ''cfg/filestore.fs'' = Some demo_store \<and>
   check_and_migrate demo_deps demo_store
     (dict_get (get_config demo_obj) ''auto_migrate'' (VBool True)) = Inr demo_store \<and>
   fst (push demo_deps demo_env demo_obj (Some ''0'') (Some 10) True (demo_world demo_store)) =
     Inl AuthError \<and>
   new_events (demo_world demo_store)
     (snd (push demo_deps demo_env demo_obj (Some ''0'') (Some 10) True (demo_world demo_store))) =
     [TxBegin, Migrate (VBool True), Call (Push (Some ''0'') (Some 10)), TxAbort]"
proof -
  have h1: "obj_db demo_obj = Some ''cfg/filestore.fs''" by (simp add: demo_obj_def)
  have h2: "filestores (demo_world demo_store) ''cfg/filestore.fs'' = Some demo_store"
    by (simp add: demo_world_def)
  have h3: "check_and_migrate demo_deps demo_store
     (dict_get (get_config demo_obj) ''auto_migrate'' (VBool True)) = Inr demo_store"
    by (simp add: demo_defs)
  have a: "dict_get (get_config demo_obj) ''auto_migrate'' (VBool True) = VBool True"
    by (simp add: demo_obj_def get_config_def dict_get_def)
  have m: "store_method demo_deps demo_store (Push (Some ''0'') (Some 10)) = Inl AuthError"
    by (simp add: demo_deps_def spec_deps_def)
  from push_index_and_date_not_rejected[OF h1 h2 h3, of demo_env "''0''" 10] h1 h2 h3 a m
  show ?thesis by simp
qed

text \<open>
  C4, as amended. The claim says that transfer leaves the store completely unchanged for
  every input. The body of transfer is empty, but it runs inside \<^verbatim>\<open>ots_filestore\<close>,
  which runs the migration check and commits. So: transfer calls no method of the store,
  and it leaves in the database the store that the migration check leaves; the store is
  as before when the check fails.
\<close>

theorem transfer_only_migrates:
  assumes "obj_db obj = Some db" and "filestores w db = Some s"
  shows "calls_of (new_events w (snd (transfer D obj duration' index_from index_to w))) = [] \<and>
         filestores (snd (transfer D obj duration' index_from index_to w)) =
           (case check_and_migrate D s (dict_get (get_config obj) ''auto_migrate'' (VBool True)) of
              Inl e \<Rightarrow> filestores w
            | Inr s1 \<Rightarrow> (filestores w)(db \<mapsto> s1))"
  using assms
  by (simp add: transfer_def ots_filestore_run[OF assms refl] succeed_def new_events_def
      split: sum.splits)

theorem transfer_only_migrates_witness:
  "obj_db demo_obj = Some ''cfg/filestore.fs'' \<and>
   filestores (demo_world demo_store) ''cfg/filestore.fs'' = Some demo_store \<and>
   filestores (snd (transfer demo_deps demo_obj ''00:30'' ''0'' ''1'' (demo_world demo_store)))
     ''cfg/filestore.fs'' = Some demo_store"
proof -
  have h1: "obj_db demo_obj = Some ''cfg/filestore.fs''" by (simp add: demo_obj_def)
  have h2: "filestores (demo_world demo_store) ''cfg/filestore.fs'' = Some demo_store"
    by (simp add: demo_world_def)
  from transfer_only_migrates[OF h1 h2, of demo_deps "''00:30''" "''0''" "''1''"] h1 h2
  show ?thesis
    by (simp add: demo_defs get_config_def dict_get_def)
qed

text \<open>
  The claim C4 as stated fails on a store of an older schema version: with automatic
  migration (the default) transfer commits the migrated store. The migration is the one
  of the specification, section 4.7.
\<close>

theorem transfer_changes_store_counterexample:
  "filestores (snd (transfer demo_deps demo_obj ''00:30'' ''0'' ''1''
      (demo_world (demo_store\<lparr>schema_version := 0\<rparr>)))) ''cfg/filestore.fs''
   \<noteq> filestores (demo_world (demo_store\<lparr>schema_version := 0\<rparr>)) ''cfg/filestore.fs''"
  by (simp add: transfer_def run_defs demo_defs)

text \<open>
  C5. The edit command reports \<open>Timesheet updated.\<close> if and only if the store's
  \<^verbatim>\<open>edit_timesheet\<close> returns true, and \<open>Nothing to update.\<close> if and only if it returns
  false. Stated for any store implementation \<open>D\<close> whose migration check passes and whose
  \<^verbatim>\<open>edit_timesheet\<close> returns the boolean \<open>changed\<close>.
\<close>

theorem edit_reports_change:
  assumes "obj_db obj = Some db" and "filestores w db = Some s"
    and "check_and_migrate D s (dict_get (get_config obj) ''auto_migrate'' (VBool True)) = Inr s1"
    and "store_method D s1 (EditTimesheet index descr dur code tid pid) = Inr (VBool changed, s2)"
  shows "(out (snd (edit D obj index descr dur code tid pid w)) = out w @ [''Timesheet updated.''])
           = changed \<and>
         (out (snd (edit D obj index descr dur code tid pid w)) = out w @ [''Nothing to update.''])
           = (\<not> changed)"
  using assms(3,4)
  by (simp add: edit_def ots_filestore_run[OF assms(1,2) refl] and_then_def call_def click_echo_def)

theorem edit_reports_change_witness:
  "obj_db demo_obj = Some ''cfg/filestore.fs'' \<and>
   filestores (demo_world demo_store) ''cfg/filestore.fs'' = Some demo_store \<and>
   check_and_migrate demo_deps demo_store
     (dict_get (get_config demo_obj) ''auto_migrate'' (VBool True)) = Inr demo_store \<and>
   map_sum id fst (store_method demo_deps demo_store
     (EditTimesheet ''0'' None (Some ''+00:30'') None None None)) = Inr (VBool True) \<and>
   out (snd (edit demo_deps demo_obj ''0'' None (Some ''+00:30'') None None None
     (demo_world demo_store))) = [''Timesheet updated.''] \<and>
   map_sum id fst (store_method demo_deps demo_store
     (EditTimesheet ''0'' (Some ''mail'') None None None None)) = Inr (VBool False) \<and>
   out (snd (edit demo_deps demo_obj ''0'' (Some ''mail'') None None None None
     (demo_world demo_store))) = [''Nothing to update.'']"
proof -
  have h1: "obj_db demo_obj = Some ''cfg/filestore.fs''" by (simp add: demo_obj_def)
  have h2: "filestores (demo_world demo_store) ''cfg/filestore.fs'' = Some demo_store"
    by (simp add: demo_world_def)
  have h3: "check_and_migrate demo_deps demo_store
     (dict_get (get_config demo_obj) ''auto_migrate'' (VBool True)) = Inr demo_store"
    by (simp add: demo_defs)
  obtain s2 where h4: "store_method demo_deps demo_store
     (EditTimesheet ''0'' None (Some ''+00:30'') None None None) = Inr (VBool True, s2)"
    by (simp add: demo_defs store_defs codec_defs)
  obtain s3 where h5: "store_method demo_deps demo_store
     (EditTimesheet ''0'' (Some ''mail'') None None None None) = Inr (VBool False, s3)"
    by (simp add: demo_defs store_defs codec_defs)
  have o: "out (demo_world demo_store) = []" by (simp add: demo_world_def)
  from edit_reports_change[OF h1 h2 h3 h4]
    edit_reports_change[OF h1 h2 h3 h5] h1 h2 h3 h4 h5 o
  show ?thesis by simp
qed

text \<open>
  C6. Drop and push without \<^verbatim>\<open>--force\<close> ask for confirmation before acting; when the
  user declines, the command does nothing to the store: drop echoes that it was aborted
  and returns, push raises \<^verbatim>\<open>Abort\<close>, and the world is otherwise as it was (no
  transaction, no method call, the same stores). When the user confirms, the command does
  what it does with \<^verbatim>\<open>--force\<close>.
\<close>

theorem confirmation_declined:
  "(\<not> env_confirm E ''Confirm dropping timesheet'' (VBool False) \<longrightarrow>
      drop_cmd D E obj index False w = (Inr (), w\<lparr>out := out w @ [''Timesheet drop aborted.'']\<rparr>)) \<and>
   (env_confirm E ''Confirm dropping timesheet'' (VBool False) \<longrightarrow>
      drop_cmd D E obj index False w = drop_cmd D E obj index True w) \<and>
   (\<not> env_confirm E (''Push '' @ to_be_pushed E index' dt @ ''?'') (VBool False) \<longrightarrow>
      push D E obj index' dt False w = (Inl Abort, w)) \<and>
   (env_confirm E (''Push '' @ to_be_pushed E index' dt @ ''?'') (VBool False) \<longrightarrow>
      push D E obj index' dt False w = push D E obj index' dt True w)"
  by (simp add: drop_cmd_def push_def click_echo_def raise_def Let_def split: option.splits)

theorem confirmation_declined_witness:
  "\<not> env_confirm demo_env ''Confirm dropping timesheet'' (VBool False) \<and>
   drop_cmd demo_deps demo_env demo_obj ''0'' False (demo_world demo_store) =
     (Inr (), (demo_world demo_store)\<lparr>out := [''Timesheet drop aborted.'']\<rparr>) \<and>
   \<not> env_confirm demo_env (''Push '' @ to_be_pushed demo_env (Some ''0'') None @ ''?'') (VBool False) \<and>
   push demo_deps demo_env demo_obj (Some ''0'') None False (demo_world demo_store) =
     (Inl Abort, demo_world demo_store)"
proof -
  have h1: "\<not> env_confirm demo_env ''Confirm dropping timesheet'' (VBool False)"
    by (simp add: demo_env_def)
  have h2: "\<not> env_confirm demo_env (''Push '' @ to_be_pushed demo_env (Some ''0'') None @ ''?'') (VBool False)"
    by (simp add: demo_env_def)
  have o: "out (demo_world demo_store) = []" by (simp add: demo_world_def)
  from confirmation_declined[of demo_env demo_deps demo_obj "''0''" "demo_world demo_store"
      "Some ''0''" None] h1 h2 o
  show ?thesis by simp
qed

text \<open>
  C7. The alias update command requires exactly one of a name or \<^verbatim>\<open>--all\<close>: with both it
  fails with a usage error and the world is untouched; with neither it echoes the help
  text and does nothing else; with exactly one it opens the store and calls the refresh
  operation \<^verbatim>\<open>update_alias(name)\<close>. A name is given when the argument is present and not
  the empty string, which is the test the code makes.
\<close>

theorem alias_update_modes:
  "(given name \<and> update_all \<longrightarrow>
      alias_update D E obj name update_all w = (Inl (UsageError alias_update_usage), w)) \<and>
   (\<not> given name \<and> \<not> update_all \<longrightarrow>
      alias_update D E obj name update_all w = (Inr (), w\<lparr>out := out w @ [env_get_help E]\<rparr>)) \<and>
   (given name \<noteq> update_all \<longrightarrow> obj_db obj = Some db \<longrightarrow> filestores w db = Some s \<longrightarrow>
    check_and_migrate D s (dict_get (get_config obj) ''auto_migrate'' (VBool True)) = Inr s1 \<longrightarrow>
      fst (alias_update D E obj name update_all w) =
        (case store_method D s1 (UpdateAlias name) of Inl e \<Rightarrow> Inl e | Inr vs \<Rightarrow> Inr ()) \<and>
      new_events w (snd (alias_update D E obj name update_all w)) =
        [TxBegin, Migrate (dict_get (get_config obj) ''auto_migrate'' (VBool True)),
         Call (UpdateAlias name),
         case store_method D s1 (UpdateAlias name) of Inl e \<Rightarrow> TxAbort | Inr vs \<Rightarrow> TxCommit])"
proof (intro conjI impI)
  assume "given name \<and> update_all"
  then show "alias_update D E obj name update_all w = (Inl (UsageError alias_update_usage), w)"
    by (simp add: alias_update_def raise_def)
next
  assume "\<not> given name \<and> \<not> update_all"
  then show "alias_update D E obj name update_all w = (Inr (), w\<lparr>out := out w @ [env_get_help E]\<rparr>)"
    by (simp add: alias_update_def click_echo_def)
next
  assume h: "given name \<noteq> update_all" "obj_db obj = Some db" "filestores w db = Some s"
    "check_and_migrate D s (dict_get (get_config obj) ''auto_migrate'' (VBool True)) = Inr s1"
  from h(1) have eq: "alias_update D E obj name update_all w =
      ots_filestore D obj (and_then (call D (UpdateAlias name)) (\<lambda>_. succeed ())) w"
    by (auto simp: alias_update_def)
  show "fst (alias_update D E obj name update_all w) =
        (case store_method D s1 (UpdateAlias name) of Inl e \<Rightarrow> Inl e | Inr vs \<Rightarrow> Inr ())"
    using h(4)
    by (simp add: eq ots_filestore_run[OF h(2,3) refl] and_then_def call_def succeed_def
        split: sum.splits)
  show "new_events w (snd (alias_update D E obj name update_all w)) =
        [TxBegin, Migrate (dict_get (get_config obj) ''auto_migrate'' (VBool True)),
         Call (UpdateAlias name),
         case store_method D s1 (UpdateAlias name) of Inl e \<Rightarrow> TxAbort | Inr vs \<Rightarrow> TxCommit]"
    using h(4)
    by (simp add: eq ots_filestore_run[OF h(2,3) refl] and_then_def call_def succeed_def
        new_events_def split: sum.splits)
qed

theorem alias_update_modes_witness:
  "alias_update demo_deps demo_env demo_obj (Some ''mail'') True (demo_world demo_store) =
     (Inl (UsageError alias_update_usage), demo_world demo_store) \<and>
   alias_update demo_deps demo_env demo_obj None False (demo_world demo_store) =
     (Inr (), (demo_world demo_store)\<lparr>out := [''Usage: ots alias update [OPTIONS] [NAME]'']\<rparr>) \<and>
   new_events (demo_world demo_store)
     (snd (alias_update demo_deps demo_env demo_obj (Some ''mail'') False (demo_world demo_store))) =
     [TxBegin, Migrate (VBool True), Call (UpdateAlias (Some ''mail'')), TxCommit] \<and>
   new_events (demo_world demo_store)
     (snd (alias_update demo_deps demo_env demo_obj None True (demo_world demo_store))) =
     [TxBegin, Migrate (VBool True), Call (UpdateAlias None), TxCommit]"
proof -
  have h1: "obj_db demo_obj = Some ''cfg/filestore.fs''" by (simp add: demo_obj_def)
  have h2: "filestores (demo_world demo_store) ''cfg/filestore.fs'' = Some demo_store"
    by (simp add: demo_world_def)
  have h3: "check_and_migrate demo_deps demo_store
     (dict_get (get_config demo_obj) ''auto_migrate'' (VBool True)) = Inr demo_store"
    by (simp add: demo_defs)
  have a: "dict_get (get_config demo_obj) ''auto_migrate'' (VBool True) = VBool True"
    by (simp add: demo_obj_def get_config_def dict_get_def)
  have m: "store_method demo_deps demo_store (UpdateAlias n) = Inr (VNone, demo_store)" for n
    by (simp add: demo_deps_def spec_deps_def)
  have o: "out (demo_world demo_store) = []" "env_get_help demo_env = ''Usage: ots alias update [OPTIONS] [NAME]''"
    by (simp_all add: demo_world_def demo_env_def)
  have g: "given (Some ''mail'')" "\<not> given None" by (simp_all add: given_def)
  from alias_update_modes[of "Some ''mail''" True demo_deps demo_env demo_obj "demo_world demo_store"
        "''cfg/filestore.fs''" demo_store demo_store]
    alias_update_modes[of None False demo_deps demo_env demo_obj "demo_world demo_store"
        "''cfg/filestore.fs''" demo_store demo_store]
    alias_update_modes[of "Some ''mail''" False demo_deps demo_env demo_obj "demo_world demo_store"
        "''cfg/filestore.fs''" demo_store demo_store]
    alias_update_modes[of None True demo_deps demo_env demo_obj "demo_world demo_store"
        "''cfg/filestore.fs''" demo_store demo_store]
    h1 h2 h3 a m o g
  show ?thesis by simp
qed

text \<open>
  C8. The lunch command creates and starts a running entry whose description is
  \<open>Lunch\<close> and whose \<open>is_worktime\<close> is false. Stated on the store of the specification
  behind the command line: after lunch at date \<open>today\<close> and clock reading \<open>now\<close>, on a
  database whose store passes the migration check, the running pointer of the committed
  store refers to an entry of today that is running since \<open>now\<close>, is described as
  \<open>Lunch\<close> and is not work time.
\<close>

theorem lunch_entry:
  assumes "obj_db obj = Some db" and "filestores w db = Some s"
    and "spec_check_and_migrate expected upgrader s
           (dict_get (get_config obj) ''auto_migrate'' (VBool True)) = Inr s1"
  shows "fst (lunch (spec_deps today now expected upgrader) obj w) = Inr () \<and>
         (case filestores (snd (lunch (spec_deps today now expected upgrader) obj w)) db of
            None \<Rightarrow> False
          | Some s' \<Rightarrow>
              (case running_entry s' of
                 None \<Rightarrow> False
               | Some r \<Rightarrow>
                   fst r = today \<and>
                   (case entry_at s' r of
                      None \<Rightarrow> False
                    | Some e \<Rightarrow>
                        description e = Some ''Lunch'' \<and> \<not> is_worktime e \<and> running e \<and>
                        start_time e = Some now)))"
proof -
  let ?D = "spec_deps today now expected upgrader"
  let ?s' = "add_and_start_timesheet today now s1 None (Some ''Lunch'') None None (Some False)"
  from assms(3) have cm: "check_and_migrate ?D s
      (dict_get (get_config obj) ''auto_migrate'' (VBool True)) = Inr s1"
    by (simp add: spec_deps_def)
  have m: "store_method ?D s1 (AddAndStartTimesheet None (Some ''Lunch'') None None (Some False))
      = Inr (VNone, ?s')"
    by (simp add: spec_deps_def)
  have run: "lunch ?D obj w =
      (Inr (), w\<lparr>trace := trace w @ [TxBegin,
                    Migrate (dict_get (get_config obj) ''auto_migrate'' (VBool True)),
                    Call (AddAndStartTimesheet None (Some ''Lunch'') None None (Some False)),
                    TxCommit],
                  filestores := (filestores w)(db \<mapsto> ?s'), conn := None\<rparr>)"
    using cm m
    by (simp add: lunch_def ots_filestore_run[OF assms(1,2) refl] and_then_def call_def succeed_def)
  have r: "running_entry ?s' = Some (today, length (day_log (stop_current now s1) today))"
    by (simp add: add_and_start_timesheet_def Let_def)
  have e: "entry_at ?s' (today, length (day_log (stop_current now s1) today)) =
      Some ((make_entry (stop_current now s1) None (Some ''Lunch'') None None False)
              \<lparr>running := True, start_time := Some now\<rparr>)"
    using entry_at_append_entry[of "stop_current now s1" today]
    by (simp add: add_and_start_timesheet_def Let_def entry_at_def)
  show ?thesis
    by (simp add: run r e make_entry_def)
qed

theorem lunch_entry_witness:
  "obj_db demo_obj = Some ''cfg/filestore.fs'' \<and>
   filestores (demo_world demo_store) ''cfg/filestore.fs'' = Some demo_store \<and>
   spec_check_and_migrate 1 (\<lambda>v s. s) demo_store
     (dict_get (get_config demo_obj) ''auto_migrate'' (VBool True)) = Inr demo_store \<and>
   fst (lunch (spec_deps 10 100 1 (\<lambda>v s. s)) demo_obj (demo_world demo_store)) = Inr () \<and>
   map_option running_entry
     (filestores (snd (lunch (spec_deps 10 100 1 (\<lambda>v s. s)) demo_obj (demo_world demo_store)))
        ''cfg/filestore.fs'') = Some (Some (10, 1))"
proof -
  have h1: "obj_db demo_obj = Some ''cfg/filestore.fs''" by (simp add: demo_obj_def)
  have h2: "filestores (demo_world demo_store) ''cfg/filestore.fs'' = Some demo_store"
    by (simp add: demo_world_def)
  have h3: "spec_check_and_migrate 1 (\<lambda>v s. s) demo_store
     (dict_get (get_config demo_obj) ''auto_migrate'' (VBool True)) = Inr demo_store"
    by (simp add: demo_defs)
  have run: "map_option running_entry
     (filestores (snd (lunch (spec_deps 10 100 1 (\<lambda>v s. s)) demo_obj (demo_world demo_store)))
        ''cfg/filestore.fs'') = Some (Some (10, 1))"
    by (simp add: lunch_def run_defs demo_defs store_defs)
  from lunch_entry[OF h1 h2 h3, of 10 100] h1 h2 h3 run
  show ?thesis by (simp split: option.splits)
qed






end
